theory Spec2Isabelle
  imports
    Main
    "HOL-Library.Sublist"
    "HOL-Library.Char_ord"
    "HOL-Library.List_Lexorder"
    "HOL-Library.Multiset"
begin

section \<open>JavaScript values\<close>

text \<open>
  The contact store keeps plain JavaScript objects in a \<^verbatim>\<open>Map\<close>. The TypeScript
  interfaces (\<^verbatim>\<open>Contact\<close>, \<^verbatim>\<open>ContactFormData\<close>) are erased at run time, and
  \<^verbatim>\<open>importContacts\<close> stores whatever \<^verbatim>\<open>JSON.parse\<close> returns, so a stored
  contact is modelled as an arbitrary JavaScript value. An object is the list of its own
  properties in insertion order (names distinct); a \<^verbatim>\<open>Date\<close> is its time value in
  milliseconds; a number is an integer (the program itself only counts).
  A string is the list of its UTF-16 code units, each of them below 256 (the range a
  \<open>char\<close> holds, Latin-1); texts with other code units are outside the model.
\<close>

datatype jsval =
    JUndefined
  | JNull
  | JBool bool
  | JNum int
  | JStr string
  | JDate int
  | JArr "jsval list"
  | JObj "(string \<times> jsval) list"

type_synonym props = "(string \<times> jsval) list"

text \<open>
  Exceptions. \<open>Unspecified\<close> is not an exception: it marks the one place where the
  model declines to name a result (\<^verbatim>\<open>Array.prototype.sort\<close> with keys of mixed kinds,
  where ECMAScript leaves the order to the implementation).
\<close>

datatype jserror = TypeError | SyntaxError | DOMException | Error string | Unspecified

definition bindE :: "jserror + 'a \<Rightarrow> ('a \<Rightarrow> jserror + 'b) \<Rightarrow> jserror + 'b" where
  "bindE r f = (case r of Inl e \<Rightarrow> Inl e | Inr x \<Rightarrow> f x)"

text \<open>\<^verbatim>\<open>!!v\<close>: the values that count as true in a condition.\<close>

fun truthy :: "jsval \<Rightarrow> bool" where
  "truthy JUndefined = False"
| "truthy JNull = False"
| "truthy (JBool b) = b"
| "truthy (JNum n) = (n \<noteq> 0)"
| "truthy (JStr s) = (s \<noteq> [])"
| "truthy (JDate t) = True"
| "truthy (JArr xs) = True"
| "truthy (JObj ps) = True"

text \<open>
  \<^verbatim>\<open>v.name\<close> for the property names the store reads (\<^verbatim>\<open>id\<close>, \<^verbatim>\<open>firstName\<close>,
  \<^verbatim>\<open>tags\<close>, ...), none of which is defined on a built-in prototype: an object
  answers with its own property or \<^verbatim>\<open>undefined\<close>, every other value that is not
  \<^verbatim>\<open>null\<close> or \<^verbatim>\<open>undefined\<close> with \<^verbatim>\<open>undefined\<close>, and reading a property of
  \<^verbatim>\<open>null\<close> or \<^verbatim>\<open>undefined\<close> throws a TypeError. Should a list name a property
  twice, the later entry is the property's value (as in a JSON text that repeats a name).
\<close>

definition own :: "props \<Rightarrow> string \<Rightarrow> jsval" where
  "own ps k = (case map_of (rev ps) k of Some v \<Rightarrow> v | None \<Rightarrow> JUndefined)"

fun propOf :: "jsval \<Rightarrow> string \<Rightarrow> jsval" where
  "propOf (JObj ps) k = own ps k"
| "propOf v k = JUndefined"

definition getProp :: "jsval \<Rightarrow> string \<Rightarrow> jserror + jsval" where
  "getProp v k = (if v = JUndefined \<or> v = JNull then Inl TypeError else Inr (propOf v k))"

text \<open>
  Defining a property: an existing name keeps its position and takes the new value, a new
  name is appended. An object literal with spreads, \<^verbatim>\<open>{a, ...x, b: e}\<close>, defines its
  properties from left to right. The list is the order of definition; an engine
  enumerates names that are array indices before the others, in ascending order, which
  changes the order of enumeration only and not what a name holds.
\<close>

fun setProp :: "props \<Rightarrow> string \<Rightarrow> jsval \<Rightarrow> props" where
  "setProp [] k v = [(k, v)]"
| "setProp ((k', v') # ps) k v = (if k' = k then (k, v) # ps else (k', v') # setProp ps k v)"

definition assign :: "props \<Rightarrow> props \<Rightarrow> props" where
  "assign target source = foldl (\<lambda>ps (k, v). setProp ps k v) target source"

subsection \<open>Numbers and dates as text\<close>

definition digitChar :: "nat \<Rightarrow> char" where
  "digitChar d = (''0123456789abcdefghijklmnopqrstuvwxyz'') ! d"

function digitsOf :: "nat \<Rightarrow> nat \<Rightarrow> string" where
  "digitsOf b n = (if b < 2 \<or> n < b then [digitChar n] else digitsOf b (n div b) @ [digitChar (n mod b)])"
  by pat_completeness auto
termination
  by (relation "measure snd") auto

declare digitsOf.simps [simp del]

text \<open>
  \<^verbatim>\<open>n.toString(radix)\<close> for an integer \<open>n\<close> that a JavaScript number holds
  exactly (magnitude below \<open>2 ^ 53\<close>, as every clock reading is).
\<close>

definition numToString :: "nat \<Rightarrow> int \<Rightarrow> string" where
  "numToString radix n = (if n < 0 then CHR ''-'' # digitsOf radix (nat (- n)) else digitsOf radix (nat n))"

definition padLeft :: "nat \<Rightarrow> string \<Rightarrow> string" where
  "padLeft w s = replicate (w - length s) CHR ''0'' @ s"

text \<open>
  \<^verbatim>\<open>Date.prototype.toISOString\<close>: the proleptic Gregorian date of a time value, as
  \<^verbatim>\<open>YYYY-MM-DDTHH:mm:ss.sssZ\<close> (years outside 0..9999 with a sign and six digits).
\<close>

definition civilFromDays :: "int \<Rightarrow> int \<times> int \<times> int" where
  "civilFromDays days =
     (let z = days + 719468;
          era = z div 146097;
          doe = z mod 146097;
          yoe = (doe - doe div 1460 + doe div 36524 - doe div 146096) div 365;
          doy = doe - (365 * yoe + yoe div 4 - yoe div 100);
          mp = (5 * doy + 2) div 153;
          d = doy - (153 * mp + 2) div 5 + 1;
          m = (if mp < 10 then mp + 3 else mp - 9);
          y = yoe + era * 400 + (if m \<le> 2 then 1 else 0)
      in (y, m, d))"

definition toISOString :: "int \<Rightarrow> string" where
  "toISOString t =
     (let (y, m, d) = civilFromDays (t div 86400000);
          ms = t mod 86400000;
          year = (if 0 \<le> y \<and> y \<le> 9999 then padLeft 4 (numToString 10 y)
                  else (if y < 0 then ''-'' else ''+'') @ padLeft 6 (numToString 10 (abs y)))
      in year @ ''-'' @ padLeft 2 (numToString 10 m) @ ''-'' @ padLeft 2 (numToString 10 d)
         @ ''T'' @ padLeft 2 (numToString 10 (ms div 3600000))
         @ '':'' @ padLeft 2 (numToString 10 (ms div 60000 mod 60))
         @ '':'' @ padLeft 2 (numToString 10 (ms div 1000 mod 60))
         @ ''.'' @ padLeft 3 (numToString 10 (ms mod 1000)) @ ''Z'')"

text \<open>
  \<^verbatim>\<open>String(v)\<close>, used where a value becomes a property name. A \<^verbatim>\<open>Date\<close> prints in
  the host's time zone and locale; it stands here as its ISO text (the store never uses a
  \<^verbatim>\<open>Date\<close> as a key).
\<close>

fun intercalate :: "string \<Rightarrow> string list \<Rightarrow> string" where
  "intercalate sep [] = []"
| "intercalate sep [s] = s"
| "intercalate sep (s # t # ss) = s @ sep @ intercalate sep (t # ss)"

fun toStringJS :: "jsval \<Rightarrow> string"
  and elemToString :: "jsval list \<Rightarrow> string list" where
  "toStringJS JUndefined = ''undefined''"
| "toStringJS JNull = ''null''"
| "toStringJS (JBool b) = (if b then ''true'' else ''false'')"
| "toStringJS (JNum n) = numToString 10 n"
| "toStringJS (JStr s) = s"
| "toStringJS (JDate t) = toISOString t"
| "toStringJS (JArr xs) = intercalate '','' (elemToString xs)"
| "toStringJS (JObj ps) = ''[object Object]''"
| "elemToString [] = []"
| "elemToString (x # xs) =
     (if x = JUndefined \<or> x = JNull then [] else toStringJS x) # elemToString xs"

subsection \<open>JSON\<close>

text \<open>
  What \<^verbatim>\<open>JSON.stringify\<close> keeps of a value: a \<^verbatim>\<open>Date\<close> becomes its ISO string
  (\<^verbatim>\<open>Date.prototype.toJSON\<close>), a property holding \<^verbatim>\<open>undefined\<close> is dropped, and
  \<^verbatim>\<open>undefined\<close> inside an array becomes \<^verbatim>\<open>null\<close>.
\<close>

fun toJSON :: "jsval \<Rightarrow> jsval"
  and toJSONList :: "jsval list \<Rightarrow> jsval list"
  and toJSONProps :: "props \<Rightarrow> props" where
  "toJSON JUndefined = JUndefined"
| "toJSON JNull = JNull"
| "toJSON (JBool b) = JBool b"
| "toJSON (JNum n) = JNum n"
| "toJSON (JStr s) = JStr s"
| "toJSON (JDate t) = JStr (toISOString t)"
| "toJSON (JArr xs) = JArr (toJSONList xs)"
| "toJSON (JObj ps) = JObj (toJSONProps ps)"
| "toJSONList [] = []"
| "toJSONList (x # xs) = (if x = JUndefined then JNull else toJSON x) # toJSONList xs"
| "toJSONProps [] = []"
| "toJSONProps ((k, v) # ps) =
     (if v = JUndefined then toJSONProps ps else (k, toJSON v) # toJSONProps ps)"

text \<open>
  A text is represented by what \<^verbatim>\<open>JSON.parse\<close> makes of it: the empty text, a text
  that parses to a value, or a text on which the parser throws. Layout (the indentation
  of a pretty-printed text) is not represented.
\<close>

datatype jstext = EmptyText | JsonText jsval | Malformed

fun JSON_parse :: "jstext \<Rightarrow> jserror + jsval" where
  "JSON_parse (JsonText v) = Inr v"
| "JSON_parse EmptyText = Inl SyntaxError"
| "JSON_parse Malformed = Inl SyntaxError"

definition JSON_stringify :: "jsval \<Rightarrow> jstext" where
  "JSON_stringify v = JsonText (toJSON v)"

section \<open>Built-in collections\<close>

text \<open>
  Key equality of a \<^verbatim>\<open>Map\<close> (SameValueZero). Primitive keys are equal when their
  values are. An object key is equal only to the same reference; every object that
  reaches a key position in this program is a freshly parsed one, so an object key never
  equals a key already held.
\<close>

definition sameValueZero :: "jsval \<Rightarrow> jsval \<Rightarrow> bool" where
  "sameValueZero a b =
     (case a of
        JUndefined \<Rightarrow> b = JUndefined
      | JNull \<Rightarrow> b = JNull
      | JBool x \<Rightarrow> b = JBool x
      | JNum x \<Rightarrow> b = JNum x
      | JStr x \<Rightarrow> b = JStr x
      | JDate x \<Rightarrow> False
      | JArr x \<Rightarrow> False
      | JObj x \<Rightarrow> False)"

type_synonym jsmap = "(jsval \<times> jsval) list"

text \<open>A \<^verbatim>\<open>Map\<close> is the list of its entries in insertion order.\<close>

fun mapHas :: "jsmap \<Rightarrow> jsval \<Rightarrow> bool" where
  "mapHas [] k = False"
| "mapHas ((k', v) # m) k = (sameValueZero k' k \<or> mapHas m k)"

fun mapGet :: "jsmap \<Rightarrow> jsval \<Rightarrow> jsval" where
  "mapGet [] k = JUndefined"
| "mapGet ((k', v) # m) k = (if sameValueZero k' k then v else mapGet m k)"

fun mapSet :: "jsmap \<Rightarrow> jsval \<Rightarrow> jsval \<Rightarrow> jsmap" where
  "mapSet [] k v = [(k, v)]"
| "mapSet ((k', v') # m) k v =
     (if sameValueZero k' k then (k', v) # m else (k', v') # mapSet m k v)"

fun mapDelete :: "jsmap \<Rightarrow> jsval \<Rightarrow> jsmap" where
  "mapDelete [] k = []"
| "mapDelete ((k', v) # m) k = (if sameValueZero k' k then m else (k', v) # mapDelete m k)"

definition mapValues :: "jsmap \<Rightarrow> jsval list" where
  "mapValues m = map snd m"

text \<open>\<^verbatim>\<open>Object.fromEntries(map)\<close> and \<^verbatim>\<open>Object.entries(value)\<close>.\<close>

definition Object_fromEntries :: "jsmap \<Rightarrow> jsval" where
  "Object_fromEntries m = JObj (assign [] (map (\<lambda>(k, v). (toStringJS k, v)) m))"

definition indexed :: "jsval list \<Rightarrow> props" where
  "indexed xs = map (\<lambda>(i, x). (numToString 10 (int i), x)) (enumerate 0 xs)"

fun Object_entries :: "jsval \<Rightarrow> jserror + props" where
  "Object_entries JUndefined = Inl TypeError"
| "Object_entries JNull = Inl TypeError"
| "Object_entries (JObj ps) = Inr ps"
| "Object_entries (JArr xs) = Inr (indexed xs)"
| "Object_entries (JStr s) = Inr (indexed (map (\<lambda>c. JStr [c]) s))"
| "Object_entries v = Inr []"

definition newMap :: "props \<Rightarrow> jsmap" where
  "newMap entries = foldl (\<lambda>m (k, v). mapSet m (JStr k) v) [] entries"

text \<open>The own enumerable properties copied by a spread \<^verbatim>\<open>...v\<close>.\<close>

fun spread :: "jsval \<Rightarrow> props" where
  "spread (JObj ps) = ps"
| "spread (JArr xs) = indexed xs"
| "spread (JStr s) = indexed (map (\<lambda>c. JStr [c]) s)"
| "spread v = []"

text \<open>The values a \<^verbatim>\<open>for ... of\<close> loop visits; a value that is not iterable throws.\<close>

fun iterate :: "jsval \<Rightarrow> jserror + jsval list" where
  "iterate (JArr xs) = Inr xs"
| "iterate (JStr s) = Inr (map (\<lambda>c. JStr [c]) s)"
| "iterate v = Inl TypeError"

subsection \<open>Strings\<close>

text \<open>
  \<^verbatim>\<open>String.prototype.toLowerCase\<close> maps every code unit by the Unicode lower-case
  mapping, whatever the locale. Below 256 the letters that have one are \<^verbatim>\<open>A\<close> to
  \<^verbatim>\<open>Z\<close> (65 to 90), U+00C0 to U+00D6 (192 to 214) and U+00D8 to U+00DE (216 to
  222); each goes to the code unit 32 places further on. The multiplication sign (215),
  the sharp s (223), the micro sign (181) and every other code unit stay as they are.
\<close>

definition lowerChar :: "char \<Rightarrow> char" where
  "lowerChar c =
     (let n = (of_char c :: nat) in
      if (65 \<le> n \<and> n \<le> 90) \<or> (192 \<le> n \<and> n \<le> 214) \<or> (216 \<le> n \<and> n \<le> 222)
      then char_of (n + 32) else c)"

definition toLowerCase :: "string \<Rightarrow> string" where
  "toLowerCase s = map lowerChar s"

text \<open>\<^verbatim>\<open>s.includes(t)\<close>: \<open>t\<close> occurs in \<open>s\<close> as a contiguous run.\<close>

fun includesStr :: "string \<Rightarrow> string \<Rightarrow> bool" where
  "includesStr [] t = (t = [])"
| "includesStr (c # cs) t = (prefix t (c # cs) \<or> includesStr cs t)"

text \<open>
  Method calls on a value that may not be what its type says: \<^verbatim>\<open>v.toLowerCase()\<close>
  exists on strings only, \<^verbatim>\<open>v.includes(t)\<close> on strings and arrays, \<^verbatim>\<open>v.forEach\<close>
  on arrays; calling a missing method throws a TypeError. The argument of
  \<^verbatim>\<open>includes\<close> is always a string here.
\<close>

fun callToLowerCase :: "jsval \<Rightarrow> jserror + string" where
  "callToLowerCase (JStr s) = Inr (toLowerCase s)"
| "callToLowerCase v = Inl TypeError"

fun callIncludes :: "jsval \<Rightarrow> string \<Rightarrow> jserror + bool" where
  "callIncludes (JStr s) t = Inr (includesStr s t)"
| "callIncludes (JArr xs) t = Inr (list_ex (\<lambda>x. sameValueZero x (JStr t)) xs)"
| "callIncludes v t = Inl TypeError"

text \<open>\<^verbatim>\<open>xs.filter(f)\<close> and \<^verbatim>\<open>xs.some(f)\<close> with a callback that may throw.\<close>

fun filterE :: "('a \<Rightarrow> jserror + bool) \<Rightarrow> 'a list \<Rightarrow> jserror + 'a list" where
  "filterE f [] = Inr []"
| "filterE f (x # xs) =
     (case f x of
        Inl e \<Rightarrow> Inl e
      | Inr b \<Rightarrow> (case filterE f xs of
                   Inl e \<Rightarrow> Inl e
                 | Inr ys \<Rightarrow> Inr (if b then x # ys else ys)))"

fun someE :: "('a \<Rightarrow> jserror + bool) \<Rightarrow> 'a list \<Rightarrow> jserror + bool" where
  "someE f [] = Inr False"
| "someE f (x # xs) =
     (case f x of Inl e \<Rightarrow> Inl e | Inr b \<Rightarrow> (if b then Inr True else someE f xs))"

text \<open>\<^verbatim>\<open>a || b\<close> on conditions, evaluated from left to right.\<close>

definition orElse :: "jserror + bool \<Rightarrow> jserror + bool \<Rightarrow> jserror + bool" where
  "orElse a b = (case a of Inl e \<Rightarrow> Inl e | Inr x \<Rightarrow> (if x then Inr True else b))"

section \<open>The environment: localStorage and the console\<close>

text \<open>
  \<^verbatim>\<open>localStorage\<close> holds texts under names. Whether an access throws (storage
  disabled, quota exceeded) is the host's decision and is part of its state.
\<close>

record LocalStorage =
  items :: "string \<rightharpoonup> jstext"
  getItemThrows :: bool
  setItemThrows :: bool

definition getItem :: "LocalStorage \<Rightarrow> string \<Rightarrow> jserror + jstext option" where
  "getItem ls key = (if getItemThrows ls then Inl DOMException else Inr (items ls key))"

definition setItem :: "LocalStorage \<Rightarrow> string \<Rightarrow> jstext \<Rightarrow> jserror + LocalStorage" where
  "setItem ls key txt =
     (if setItemThrows ls then Inl DOMException
      else Inr (ls\<lparr>items := (items ls)(key \<mapsto> txt)\<rparr>))"

section \<open>The plain store: class ContactDatabase\<close>

record ContactDatabase =
  contacts :: jsmap
  localStorage :: LocalStorage
  console :: "string list"

definition dbName :: string where
  "dbName = ''contact-manager-db''"

text \<open>
  \<^verbatim>\<open>Date.now().toString(36) + Math.random().toString(36).substr(2)\<close>. The clock
  reading and the text \<open>rnd\<close> of the random fraction behind \<^verbatim>\<open>0.\<close> (empty when the
  fraction is zero) are inputs from the host.
\<close>

definition generateId :: "int \<Rightarrow> string \<Rightarrow> string" where
  "generateId dateNow rnd = numToString 36 dateNow @ rnd"

definition loadFromStorage :: "ContactDatabase \<Rightarrow> ContactDatabase" where
  "loadFromStorage db =
     (case bindE (getItem (localStorage db) dbName) (\<lambda>stored.
             case stored of
               None \<Rightarrow> Inr db
             | Some txt \<Rightarrow>
                 if txt = EmptyText then Inr db
                 else bindE (JSON_parse txt) (\<lambda>data.
                      bindE (Object_entries data) (\<lambda>entries.
                      Inr (db\<lparr>contacts := newMap entries\<rparr>)))) of
        Inl e \<Rightarrow> db\<lparr>console := console db @ [''Failed to load contacts from storage:'']\<rparr>
      | Inr db' \<Rightarrow> db')"

definition saveToStorage :: "ContactDatabase \<Rightarrow> ContactDatabase" where
  "saveToStorage db =
     (case setItem (localStorage db) dbName (JSON_stringify (Object_fromEntries (contacts db))) of
        Inl e \<Rightarrow> db\<lparr>console := console db @ [''Failed to save contacts to storage:'']\<rparr>
      | Inr ls \<Rightarrow> db\<lparr>localStorage := ls\<rparr>)"

definition new_ContactDatabase :: "LocalStorage \<Rightarrow> ContactDatabase" where
  "new_ContactDatabase ls = loadFromStorage \<lparr>contacts = [], localStorage = ls, console = []\<rparr>"

text \<open>
  \<open>contactData\<close> is the list of own properties of the argument object; \<open>dateNow\<close>
  and \<open>rnd\<close> feed \<open>generateId\<close>, \<open>now\<close> is the time value of \<^verbatim>\<open>new Date()\<close>.
\<close>

definition createContact ::
  "ContactDatabase \<Rightarrow> int \<Rightarrow> string \<Rightarrow> int \<Rightarrow> props \<Rightarrow> jsval \<times> ContactDatabase" where
  "createContact db dateNow rnd now contactData =
     (let id' = generateId dateNow rnd;
          contact = JObj (assign []
            ([(''id'', JStr id')] @ contactData @
             [(''createdAt'', JDate now),
              (''updatedAt'', JDate now),
              (''isFavorite'', JBool False),
              (''tags'', (if truthy (own contactData ''tags'') then own contactData ''tags''
                          else JArr []))]))
      in (contact, saveToStorage (db\<lparr>contacts := mapSet (contacts db) (JStr id') contact\<rparr>)))"

definition getContact :: "ContactDatabase \<Rightarrow> string \<Rightarrow> jsval" where
  "getContact db id' =
     (let v = mapGet (contacts db) (JStr id') in if truthy v then v else JNull)"

definition getAllContacts :: "ContactDatabase \<Rightarrow> jsval list" where
  "getAllContacts db = mapValues (contacts db)"

definition updateContact ::
  "ContactDatabase \<Rightarrow> string \<Rightarrow> props \<Rightarrow> int \<Rightarrow> jsval \<times> ContactDatabase" where
  "updateContact db id' contactData now =
     (let contact = mapGet (contacts db) (JStr id') in
      if \<not> truthy contact then (JNull, db)
      else
        let updatedContact = JObj (assign []
              (spread contact @ contactData @
               [(''updatedAt'', JDate now),
                (''tags'', (if truthy (own contactData ''tags'') then own contactData ''tags''
                            else propOf contact ''tags''))]))
        in (updatedContact,
            saveToStorage (db\<lparr>contacts := mapSet (contacts db) (JStr id') updatedContact\<rparr>)))"

definition deleteContact :: "ContactDatabase \<Rightarrow> string \<Rightarrow> bool \<times> ContactDatabase" where
  "deleteContact db id' =
     (let deleted = mapHas (contacts db) (JStr id');
          db' = db\<lparr>contacts := mapDelete (contacts db) (JStr id')\<rparr>
      in if deleted then (True, saveToStorage db') else (False, db'))"

subsection \<open>Search\<close>

datatype SortBy = ByFirstName | ByLastName | ByEmail | ByCreatedAt | ByUpdatedAt

datatype SortOrder = Asc | Desc

fun sortByName :: "SortBy \<Rightarrow> string" where
  "sortByName ByFirstName = ''firstName''"
| "sortByName ByLastName = ''lastName''"
| "sortByName ByEmail = ''email''"
| "sortByName ByCreatedAt = ''createdAt''"
| "sortByName ByUpdatedAt = ''updatedAt''"

text \<open>The interface \<^verbatim>\<open>ContactFilters\<close>; \<open>None\<close> is an absent (undefined) field.\<close>

record ContactFilters =
  search :: "string option"
  tags :: "string list option"
  isFavorite :: "bool option"
  sortBy :: "SortBy option"
  sortOrder :: "SortOrder option"

text \<open>
  \<^verbatim>\<open>a < b\<close> for two strings (by character code) and for two values that are numbers
  or dates (by number). Other pairs need the conversions of strings and objects to
  numbers; \<open>sortResults\<close> below never compares such a pair.
\<close>

fun numeric :: "jsval \<Rightarrow> int option" where
  "numeric (JDate t) = Some t"
| "numeric (JNum n) = Some n"
| "numeric v = None"

fun isStr :: "jsval \<Rightarrow> bool" where
  "isStr (JStr s) = True"
| "isStr v = False"

definition jsLess :: "jsval \<Rightarrow> jsval \<Rightarrow> bool" where
  "jsLess a b =
     (case (a, b) of
        (JStr s, JStr t) \<Rightarrow> s < t
      | _ \<Rightarrow> (case (numeric a, numeric b) of (Some x, Some y) \<Rightarrow> x < y | _ \<Rightarrow> False))"

text \<open>The value the comparison function reads from a contact, and the comparison.\<close>

definition sortValue :: "SortBy \<Rightarrow> jsval \<Rightarrow> jserror + jsval" where
  "sortValue by a =
     bindE (getProp a (sortByName by)) (\<lambda>aValue.
       if by = ByFirstName \<or> by = ByLastName
       then bindE (callToLowerCase aValue) (\<lambda>s. Inr (JStr s))
       else Inr aValue)"

definition compareValues :: "SortOrder option \<Rightarrow> jsval \<Rightarrow> jsval \<Rightarrow> int" where
  "compareValues order aValue bValue =
     (if jsLess aValue bValue then (if order = Some Desc then 1 else - 1)
      else if jsLess bValue aValue then (if order = Some Desc then - 1 else 1)
      else 0)"

text \<open>
  \<^verbatim>\<open>Array.prototype.sort\<close> is stable; with a consistent comparison function its
  result is that of a stable insertion sort.
\<close>

fun insertBy :: "('a \<Rightarrow> 'a \<Rightarrow> int) \<Rightarrow> 'a \<Rightarrow> 'a list \<Rightarrow> 'a list" where
  "insertBy cmp x [] = [x]"
| "insertBy cmp x (y # ys) = (if cmp x y \<le> 0 then x # y # ys else y # insertBy cmp x ys)"

definition Array_sort :: "('a \<Rightarrow> 'a \<Rightarrow> int) \<Rightarrow> 'a list \<Rightarrow> 'a list" where
  "Array_sort cmp xs = foldr (insertBy cmp) xs []"

fun mapE :: "('a \<Rightarrow> jserror + 'b) \<Rightarrow> 'a list \<Rightarrow> jserror + 'b list" where
  "mapE f [] = Inr []"
| "mapE f (x # xs) =
     (case f x of
        Inl e \<Rightarrow> Inl e
      | Inr y \<Rightarrow> (case mapE f xs of Inl e \<Rightarrow> Inl e | Inr ys \<Rightarrow> Inr (y # ys)))"

text \<open>
  The sorting stage. With fewer than two results the comparison function is never
  called. Otherwise every result is compared at least once, so the call throws when the
  key of some result cannot be read. The order is modelled where all keys are strings or
  all are numbers or dates.
\<close>

definition sortResults :: "SortBy \<Rightarrow> SortOrder option \<Rightarrow> jsval list \<Rightarrow> jserror + jsval list" where
  "sortResults by order results =
     (if length results < 2 then Inr results
      else bindE (mapE (sortValue by) results) (\<lambda>keys.
        if list_all isStr keys \<or> list_all (\<lambda>k. numeric k \<noteq> None) keys
        then Inr (map snd (Array_sort (\<lambda>a b. compareValues order (fst a) (fst b)) (zip keys results)))
        else Inl Unspecified))"

definition lowerIncludes :: "jsval \<Rightarrow> string \<Rightarrow> string \<Rightarrow> jserror + bool" where
  "lowerIncludes contact field searchTerm =
     bindE (getProp contact field) (\<lambda>v.
     bindE (callToLowerCase v) (\<lambda>s. Inr (includesStr s searchTerm)))"

definition matchesSearch :: "string \<Rightarrow> jsval \<Rightarrow> jserror + bool" where
  "matchesSearch searchTerm contact =
     orElse (lowerIncludes contact ''firstName'' searchTerm)
    (orElse (lowerIncludes contact ''lastName'' searchTerm)
    (orElse (lowerIncludes contact ''email'' searchTerm)
    (orElse (bindE (getProp contact ''phone'') (\<lambda>v. callIncludes v searchTerm))
            (bindE (getProp contact ''company'') (\<lambda>v.
               if truthy v then bindE (callToLowerCase v) (\<lambda>s. Inr (includesStr s searchTerm))
               else Inr False)))))"

definition matchesTags :: "string list \<Rightarrow> jsval \<Rightarrow> jserror + bool" where
  "matchesTags ts contact =
     someE (\<lambda>tag. bindE (getProp contact ''tags'') (\<lambda>v. callIncludes v tag)) ts"

definition matchesFavorite :: "bool \<Rightarrow> jsval \<Rightarrow> jserror + bool" where
  "matchesFavorite b contact = bindE (getProp contact ''isFavorite'') (\<lambda>v. Inr (v = JBool b))"

definition searchContacts :: "ContactDatabase \<Rightarrow> ContactFilters \<Rightarrow> jserror + jsval list" where
  "searchContacts db filters =
     bindE (case search filters of
              Some s \<Rightarrow> if s \<noteq> [] then filterE (matchesSearch (toLowerCase s)) (mapValues (contacts db))
                        else Inr (mapValues (contacts db))
            | None \<Rightarrow> Inr (mapValues (contacts db))) (\<lambda>results1.
     bindE (case tags filters of
              Some ts \<Rightarrow> if length ts > 0 then filterE (matchesTags ts) results1 else Inr results1
            | None \<Rightarrow> Inr results1) (\<lambda>results2.
     bindE (case isFavorite filters of
              Some b \<Rightarrow> filterE (matchesFavorite b) results2
            | None \<Rightarrow> Inr results2) (\<lambda>results3.
     (case sortBy filters of
        Some by \<Rightarrow> sortResults by (sortOrder filters) results3
      | None \<Rightarrow> Inr results3))))"

definition toggleFavorite :: "ContactDatabase \<Rightarrow> string \<Rightarrow> int \<Rightarrow> jsval \<times> ContactDatabase" where
  "toggleFavorite db id' now =
     (let contact = mapGet (contacts db) (JStr id') in
      if \<not> truthy contact then (JNull, db)
      else
        let updatedContact = JObj (assign []
              (spread contact @
               [(''isFavorite'', JBool (\<not> truthy (propOf contact ''isFavorite''))),
                (''updatedAt'', JDate now)]))
        in (updatedContact,
            saveToStorage (db\<lparr>contacts := mapSet (contacts db) (JStr id') updatedContact\<rparr>)))"

subsection \<open>Statistics\<close>

record ContactStats =
  total :: nat
  favorites :: nat
  withEmail :: nat
  withPhone :: nat
  byTag :: props

text \<open>
  \<open>byTag\<close> is a plain object used as a dictionary, so \<^verbatim>\<open>byTag[tag]\<close> also finds
  what every object inherits from \<^verbatim>\<open>Object.prototype\<close>. An inherited method is truthy
  and adding 1 to it gives its source text followed by \<^verbatim>\<open>1\<close> (the text is the
  engine's; the usual one is taken here). Assigning a string to \<^verbatim>\<open>__proto__\<close> does
  nothing.
\<close>

definition objectPrototypeNames :: "string list" where
  "objectPrototypeNames =
     [''constructor'', ''__defineGetter__'', ''__defineSetter__'', ''hasOwnProperty'',
      ''__lookupGetter__'', ''__lookupSetter__'', ''isPrototypeOf'', ''propertyIsEnumerable'',
      ''toString'', ''valueOf'', ''__proto__'', ''toLocaleString'']"

definition nativeText :: "string \<Rightarrow> string" where
  "nativeText name =
     ''function '' @ (if name = ''constructor'' then ''Object'' else name) @ ''() { [native code] }''"

definition plusOne :: "jsval \<Rightarrow> jsval" where
  "plusOne v = (case v of JNum n \<Rightarrow> JNum (n + 1) | _ \<Rightarrow> JStr (toStringJS v @ ''1''))"

text \<open>\<^verbatim>\<open>byTag[tag] = (byTag[tag] || 0) + 1\<close>\<close>

definition bumpTag :: "props \<Rightarrow> jsval \<Rightarrow> props" where
  "bumpTag byTag' tag =
     (let key = toStringJS tag in
      case map_of (rev byTag') key of
        Some v \<Rightarrow> setProp byTag' key (plusOne (if truthy v then v else JNum 0))
      | None \<Rightarrow>
          if key = ''__proto__'' then byTag'
          else if key \<in> set objectPrototypeNames
          then setProp byTag' key (JStr (nativeText key @ ''1''))
          else setProp byTag' key (JNum 1))"

fun tagLoop :: "props \<Rightarrow> jsval list \<Rightarrow> jserror + props" where
  "tagLoop byTag' [] = Inr byTag'"
| "tagLoop byTag' (contact # rest) =
     bindE (getProp contact ''tags'') (\<lambda>ts.
       case ts of
         JArr xs \<Rightarrow> tagLoop (foldl bumpTag byTag' xs) rest
       | _ \<Rightarrow> Inl TypeError)"

definition truthyField :: "string \<Rightarrow> jsval \<Rightarrow> jserror + bool" where
  "truthyField field c = bindE (getProp c field) (\<lambda>v. Inr (truthy v))"

definition getStats :: "ContactDatabase \<Rightarrow> jserror + ContactStats" where
  "getStats db =
     (let cs = mapValues (contacts db) in
      bindE (tagLoop [] cs) (\<lambda>tagCounts.
      bindE (filterE (truthyField ''isFavorite'') cs) (\<lambda>favs.
      bindE (filterE (truthyField ''email'') cs) (\<lambda>emails.
      bindE (filterE (truthyField ''phone'') cs) (\<lambda>phones.
      Inr \<lparr>total = length cs, favorites = length favs, withEmail = length emails,
           withPhone = length phones, byTag = tagCounts\<rparr>)))))"

subsection \<open>Export, import, clear\<close>

definition exportContacts :: "ContactDatabase \<Rightarrow> jstext" where
  "exportContacts db = JSON_stringify (JArr (mapValues (contacts db)))"

text \<open>
  The import loop. It returns the map as the loop left it together with the count, or
  with the exception that stopped it: entries set before an exception stay in the map.
\<close>

fun importLoop :: "jsmap \<Rightarrow> nat \<Rightarrow> jsval list \<Rightarrow> jsmap \<times> (jserror + nat)" where
  "importLoop m imported [] = (m, Inr imported)"
| "importLoop m imported (contact # rest) =
     (case getProp contact ''id'' of
        Inl e \<Rightarrow> (m, Inl e)
      | Inr i \<Rightarrow>
          if truthy i \<and> \<not> mapHas m i
          then importLoop (mapSet m i contact) (imported + 1) rest
          else importLoop m imported rest)"

definition importFailed :: "ContactDatabase \<Rightarrow> (jserror + nat) \<times> ContactDatabase" where
  "importFailed db =
     (Inl (Error ''Invalid import data format''),
      db\<lparr>console := console db @ [''Failed to import contacts:'']\<rparr>)"

definition importContacts :: "ContactDatabase \<Rightarrow> jstext \<Rightarrow> (jserror + nat) \<times> ContactDatabase" where
  "importContacts db jsonData =
     (case bindE (JSON_parse jsonData) iterate of
        Inl e \<Rightarrow> importFailed db
      | Inr records \<Rightarrow>
          (case importLoop (contacts db) 0 records of
             (m, Inl e) \<Rightarrow> importFailed (db\<lparr>contacts := m\<rparr>)
           | (m, Inr imported) \<Rightarrow> (Inr imported, saveToStorage (db\<lparr>contacts := m\<rparr>))))"

definition clearAll :: "ContactDatabase \<Rightarrow> ContactDatabase" where
  "clearAll db = saveToStorage (db\<lparr>contacts := []\<rparr>)"

section \<open>The SQLite-flavoured store: class SQLiteContactDatabase\<close>

text \<open>
  The second store keeps its \<^verbatim>\<open>Map\<close> inside a mock database handle that is created
  on first use, persists to its own slot, and logs what it does. The timer registered by
  \<^verbatim>\<open>scheduleBackup\<close> is recorded by its period; its callback only writes backup
  slots and is not run here.
\<close>

record DatabaseConfig =
  dbPath :: string
  autoBackup :: bool
  backupInterval :: nat

record PartialDatabaseConfig =
  dbPath_opt :: "string option"
  autoBackup_opt :: "bool option"
  backupInterval_opt :: "nat option"

record SQLiteHandle =
  handleContacts :: jsmap
  transactions :: "jsval list"
  isOpen :: bool

record SQLiteContactDatabase =
  db :: "SQLiteHandle option"
  config :: DatabaseConfig
  isInitialized :: bool
  sqLocalStorage :: LocalStorage
  sqConsole :: "string list"
  intervals :: "nat list"

definition new_SQLiteContactDatabase :: "PartialDatabaseConfig \<Rightarrow> LocalStorage \<Rightarrow> SQLiteContactDatabase" where
  "new_SQLiteContactDatabase cfg ls =
     \<lparr>db = None,
      config = \<lparr>dbPath = (case dbPath_opt cfg of
                           Some p \<Rightarrow> if p \<noteq> [] then p else ''./contacts.db''
                         | None \<Rightarrow> ''./contacts.db''),
                autoBackup = (autoBackup_opt cfg \<noteq> Some False),
                backupInterval = (case backupInterval_opt cfg of
                                    Some n \<Rightarrow> if n \<noteq> 0 then n else 24 * 60 * 60 * 1000
                                  | None \<Rightarrow> 24 * 60 * 60 * 1000)\<rparr>,
      isInitialized = False,
      sqLocalStorage = ls,
      sqConsole = [],
      intervals = []\<rparr>"

definition sqLog :: "string \<Rightarrow> SQLiteContactDatabase \<Rightarrow> SQLiteContactDatabase" where
  "sqLog msg s = s\<lparr>sqConsole := sqConsole s @ [msg]\<rparr>"

definition createTables :: "SQLiteContactDatabase \<Rightarrow> SQLiteContactDatabase" where
  "createTables s =
     sqLog ''Executing: contact_tags''
       (sqLog ''Executing: tags''
         (sqLog ''Executing: contacts'' (sqLog ''Creating database tables...'' s)))"

definition sqSlot :: string where
  "sqSlot = ''sqlite-contacts-backup''"

text \<open>Reading \<^verbatim>\<open>this.db.contacts\<close> while \<^verbatim>\<open>this.db\<close> is null throws a TypeError.\<close>

definition sqLoadFromStorage :: "SQLiteContactDatabase \<Rightarrow> SQLiteContactDatabase" where
  "sqLoadFromStorage s =
     (case bindE (getItem (sqLocalStorage s) sqSlot) (\<lambda>stored.
             case stored of
               None \<Rightarrow> Inr s
             | Some txt \<Rightarrow>
                 if txt = EmptyText then Inr s
                 else bindE (JSON_parse txt) (\<lambda>data.
                      bindE (Object_entries data) (\<lambda>entries.
                      case db s of
                        None \<Rightarrow> Inl TypeError
                      | Some h \<Rightarrow> Inr (s\<lparr>db := Some (h\<lparr>handleContacts := newMap entries\<rparr>)\<rparr>)))) of
        Inl e \<Rightarrow> sqLog ''Failed to load contacts from storage:'' s
      | Inr s' \<Rightarrow> s')"

definition sqSaveToStorage :: "SQLiteContactDatabase \<Rightarrow> SQLiteContactDatabase" where
  "sqSaveToStorage s =
     (case bindE (case db s of None \<Rightarrow> Inl TypeError | Some h \<Rightarrow> Inr (handleContacts h)) (\<lambda>m.
             setItem (sqLocalStorage s) sqSlot (JSON_stringify (Object_fromEntries m))) of
        Inl e \<Rightarrow> sqLog ''Failed to save contacts to storage:'' s
      | Inr ls \<Rightarrow> s\<lparr>sqLocalStorage := ls\<rparr>)"

definition scheduleBackup :: "SQLiteContactDatabase \<Rightarrow> SQLiteContactDatabase" where
  "scheduleBackup s = s\<lparr>intervals := intervals s @ [backupInterval (config s)]\<rparr>"

definition initialize :: "SQLiteContactDatabase \<Rightarrow> SQLiteContactDatabase" where
  "initialize s =
     (if isInitialized s then s
      else
        let s1 = s\<lparr>db := Some \<lparr>handleContacts = [], transactions = [], isOpen = True\<rparr>\<rparr>;
            s2 = createTables s1;
            s3 = sqLoadFromStorage s2;
            s4 = s3\<lparr>isInitialized := True\<rparr>
        in if autoBackup (config s4) then scheduleBackup s4 else s4)"

definition ensureInitialized :: "SQLiteContactDatabase \<Rightarrow> SQLiteContactDatabase" where
  "ensureInitialized s = (if \<not> isInitialized s then initialize s else s)"

text \<open>
  Each operation first makes sure the handle exists and then works on
  \<^verbatim>\<open>this.db.contacts\<close>; \<open>withHandle\<close> is that access.
\<close>

definition setContacts :: "SQLiteContactDatabase \<Rightarrow> SQLiteHandle \<Rightarrow> jsmap \<Rightarrow> SQLiteContactDatabase" where
  "setContacts s h m = s\<lparr>db := Some (h\<lparr>handleContacts := m\<rparr>)\<rparr>"

definition sqCreateContact ::
  "SQLiteContactDatabase \<Rightarrow> int \<Rightarrow> string \<Rightarrow> int \<Rightarrow> props \<Rightarrow> (jserror + jsval) \<times> SQLiteContactDatabase" where
  "sqCreateContact s0 dateNow rnd now contactData =
     (let s = ensureInitialized s0;
          id' = generateId dateNow rnd;
          contact = JObj (assign []
            ([(''id'', JStr id')] @ contactData @
             [(''createdAt'', JDate now),
              (''updatedAt'', JDate now),
              (''isFavorite'', JBool False),
              (''tags'', (if truthy (own contactData ''tags'') then own contactData ''tags''
                          else JArr []))]))
      in case db s of
           None \<Rightarrow> (Inl TypeError, s)
         | Some h \<Rightarrow>
             (Inr contact,
              sqLog (''SQLite: Created contact with ID '' @ id')
                (sqSaveToStorage (setContacts s h (mapSet (handleContacts h) (JStr id') contact)))))"

definition sqGetContact :: "SQLiteContactDatabase \<Rightarrow> string \<Rightarrow> (jserror + jsval) \<times> SQLiteContactDatabase" where
  "sqGetContact s0 id' =
     (let s = ensureInitialized s0 in
      case db s of
        None \<Rightarrow> (Inl TypeError, s)
      | Some h \<Rightarrow>
          (let v = mapGet (handleContacts h) (JStr id') in (Inr (if truthy v then v else JNull), s)))"

definition sqGetAllContacts :: "SQLiteContactDatabase \<Rightarrow> (jserror + jsval list) \<times> SQLiteContactDatabase" where
  "sqGetAllContacts s0 =
     (let s = ensureInitialized s0 in
      case db s of
        None \<Rightarrow> (Inl TypeError, s)
      | Some h \<Rightarrow> (Inr (mapValues (handleContacts h)), s))"

definition sqUpdateContact ::
  "SQLiteContactDatabase \<Rightarrow> string \<Rightarrow> props \<Rightarrow> int \<Rightarrow> (jserror + jsval) \<times> SQLiteContactDatabase" where
  "sqUpdateContact s0 id' contactData now =
     (let s = ensureInitialized s0 in
      case db s of
        None \<Rightarrow> (Inl TypeError, s)
      | Some h \<Rightarrow>
          (let contact = mapGet (handleContacts h) (JStr id') in
           if \<not> truthy contact then (Inr JNull, s)
           else
             let updatedContact = JObj (assign []
                   (spread contact @ contactData @
                    [(''updatedAt'', JDate now),
                     (''tags'', (if truthy (own contactData ''tags'') then own contactData ''tags''
                                 else propOf contact ''tags''))]))
             in (Inr updatedContact,
                 sqLog (''SQLite: Updated contact with ID '' @ id')
                   (sqSaveToStorage
                      (setContacts s h (mapSet (handleContacts h) (JStr id') updatedContact))))))"

definition sqDeleteContact :: "SQLiteContactDatabase \<Rightarrow> string \<Rightarrow> (jserror + bool) \<times> SQLiteContactDatabase" where
  "sqDeleteContact s0 id' =
     (let s = ensureInitialized s0 in
      case db s of
        None \<Rightarrow> (Inl TypeError, s)
      | Some h \<Rightarrow>
          (let deleted = mapHas (handleContacts h) (JStr id');
               s' = setContacts s h (mapDelete (handleContacts h) (JStr id'))
           in if deleted
              then (Inr True, sqLog (''SQLite: Deleted contact with ID '' @ id') (sqSaveToStorage s'))
              else (Inr False, s')))"

definition sqSearchContacts ::
  "SQLiteContactDatabase \<Rightarrow> ContactFilters \<Rightarrow> (jserror + jsval list) \<times> SQLiteContactDatabase" where
  "sqSearchContacts s0 filters =
     (let s = ensureInitialized s0 in
      case db s of
        None \<Rightarrow> (Inl TypeError, s)
      | Some h \<Rightarrow>
          (bindE (case search filters of
                    Some t \<Rightarrow> if t \<noteq> [] then filterE (matchesSearch (toLowerCase t)) (mapValues (handleContacts h))
                              else Inr (mapValues (handleContacts h))
                  | None \<Rightarrow> Inr (mapValues (handleContacts h))) (\<lambda>results1.
           bindE (case tags filters of
                    Some ts \<Rightarrow> if length ts > 0 then filterE (matchesTags ts) results1 else Inr results1
                  | None \<Rightarrow> Inr results1) (\<lambda>results2.
           bindE (case isFavorite filters of
                    Some b \<Rightarrow> filterE (matchesFavorite b) results2
                  | None \<Rightarrow> Inr results2) (\<lambda>results3.
           (case sortBy filters of
              Some by \<Rightarrow> sortResults by (sortOrder filters) results3
            | None \<Rightarrow> Inr results3)))), s))"

definition sqToggleFavorite ::
  "SQLiteContactDatabase \<Rightarrow> string \<Rightarrow> int \<Rightarrow> (jserror + jsval) \<times> SQLiteContactDatabase" where
  "sqToggleFavorite s0 id' now =
     (let s = ensureInitialized s0 in
      case db s of
        None \<Rightarrow> (Inl TypeError, s)
      | Some h \<Rightarrow>
          (let contact = mapGet (handleContacts h) (JStr id') in
           if \<not> truthy contact then (Inr JNull, s)
           else
             let updatedContact = JObj (assign []
                   (spread contact @
                    [(''isFavorite'', JBool (\<not> truthy (propOf contact ''isFavorite''))),
                     (''updatedAt'', JDate now)]))
             in (Inr updatedContact,
                 sqLog (''SQLite: Toggled favorite for contact with ID '' @ id')
                   (sqSaveToStorage
                      (setContacts s h (mapSet (handleContacts h) (JStr id') updatedContact))))))"

definition sqGetStats :: "SQLiteContactDatabase \<Rightarrow> (jserror + ContactStats) \<times> SQLiteContactDatabase" where
  "sqGetStats s0 =
     (let s = ensureInitialized s0 in
      case db s of
        None \<Rightarrow> (Inl TypeError, s)
      | Some h \<Rightarrow>
          (let cs = mapValues (handleContacts h) in
           bindE (tagLoop [] cs) (\<lambda>tagCounts.
           bindE (filterE (truthyField ''isFavorite'') cs) (\<lambda>favs.
           bindE (filterE (truthyField ''email'') cs) (\<lambda>emails.
           bindE (filterE (truthyField ''phone'') cs) (\<lambda>phones.
           Inr \<lparr>total = length cs, favorites = length favs, withEmail = length emails,
                withPhone = length phones, byTag = tagCounts\<rparr>)))), s))"

definition sqExportContacts :: "SQLiteContactDatabase \<Rightarrow> (jserror + jstext) \<times> SQLiteContactDatabase" where
  "sqExportContacts s0 =
     (let s = ensureInitialized s0 in
      case db s of
        None \<Rightarrow> (Inl TypeError, s)
      | Some h \<Rightarrow> (Inr (JSON_stringify (JArr (mapValues (handleContacts h)))), s))"

definition sqImportFailed :: "SQLiteContactDatabase \<Rightarrow> (jserror + nat) \<times> SQLiteContactDatabase" where
  "sqImportFailed s =
     (Inl (Error ''Invalid import data format''), sqLog ''Failed to import contacts:'' s)"

definition sqImportContacts ::
  "SQLiteContactDatabase \<Rightarrow> jstext \<Rightarrow> (jserror + nat) \<times> SQLiteContactDatabase" where
  "sqImportContacts s0 jsonData =
     (let s = ensureInitialized s0 in
      case bindE (JSON_parse jsonData) iterate of
        Inl e \<Rightarrow> sqImportFailed s
      | Inr records \<Rightarrow>
          (case db s of
             None \<Rightarrow>
               (if list_all (\<lambda>c. c \<noteq> JUndefined \<and> c \<noteq> JNull \<and> \<not> truthy (propOf c ''id'')) records
                then (Inr 0, sqLog ''SQLite: Imported 0 contacts'' (sqSaveToStorage s))
                else sqImportFailed s)
           | Some h \<Rightarrow>
               (case importLoop (handleContacts h) 0 records of
                  (m, Inl e) \<Rightarrow> sqImportFailed (setContacts s h m)
                | (m, Inr imported) \<Rightarrow>
                    (Inr imported,
                     sqLog (''SQLite: Imported '' @ numToString 10 (int imported) @ '' contacts'')
                       (sqSaveToStorage (setContacts s h m))))))"

definition sqClearAll :: "SQLiteContactDatabase \<Rightarrow> (jserror + unit) \<times> SQLiteContactDatabase" where
  "sqClearAll s0 =
     (let s = ensureInitialized s0 in
      case db s of
        None \<Rightarrow> (Inl TypeError, s)
      | Some h \<Rightarrow>
          (Inr (), sqLog ''SQLite: Cleared all contacts'' (sqSaveToStorage (setContacts s h []))))"

section \<open>Callers\<close>

text \<open>
  A caller issues operations one after the other. An operation carries what the host
  supplies while it runs: the clock readings and the random digits.
\<close>

datatype op =
    Create int string int props
  | Get string
  | GetAll
  | Update string props int
  | Delete string
  | Search ContactFilters
  | ToggleFavorite string int
  | GetStats
  | Export
  | Import jstext
  | ClearAll

datatype outcome =
    Returned jsval
  | ReturnedList "jsval list"
  | ReturnedBool bool
  | ReturnedStats ContactStats
  | ReturnedText jstext
  | ReturnedCount nat
  | ReturnedVoid
  | Thrown jserror

definition outcomeOf :: "('a \<Rightarrow> outcome) \<Rightarrow> jserror + 'a \<Rightarrow> outcome" where
  "outcomeOf f r = (case r of Inl e \<Rightarrow> Thrown e | Inr x \<Rightarrow> f x)"

fun step :: "ContactDatabase \<Rightarrow> op \<Rightarrow> outcome \<times> ContactDatabase" where
  "step d (Create dateNow rnd now contactData) =
     (case createContact d dateNow rnd now contactData of (c, d') \<Rightarrow> (Returned c, d'))"
| "step d (Get i) = (Returned (getContact d i), d)"
| "step d GetAll = (ReturnedList (getAllContacts d), d)"
| "step d (Update i contactData now) =
     (case updateContact d i contactData now of (c, d') \<Rightarrow> (Returned c, d'))"
| "step d (Delete i) = (case deleteContact d i of (b, d') \<Rightarrow> (ReturnedBool b, d'))"
| "step d (Search filters) = (outcomeOf ReturnedList (searchContacts d filters), d)"
| "step d (ToggleFavorite i now) =
     (case toggleFavorite d i now of (c, d') \<Rightarrow> (Returned c, d'))"
| "step d GetStats = (outcomeOf ReturnedStats (getStats d), d)"
| "step d Export = (ReturnedText (exportContacts d), d)"
| "step d (Import txt) = (case importContacts d txt of (r, d') \<Rightarrow> (outcomeOf ReturnedCount r, d'))"
| "step d ClearAll = (ReturnedVoid, clearAll d)"

fun run :: "ContactDatabase \<Rightarrow> op list \<Rightarrow> outcome list \<times> ContactDatabase" where
  "run d [] = ([], d)"
| "run d (x # xs) =
     (case step d x of (r, d') \<Rightarrow> (case run d' xs of (rs, d'') \<Rightarrow> (r # rs, d'')))"

fun sqStep :: "SQLiteContactDatabase \<Rightarrow> op \<Rightarrow> outcome \<times> SQLiteContactDatabase" where
  "sqStep s (Create dateNow rnd now contactData) =
     (case sqCreateContact s dateNow rnd now contactData of (r, s') \<Rightarrow> (outcomeOf Returned r, s'))"
| "sqStep s (Get i) = (case sqGetContact s i of (r, s') \<Rightarrow> (outcomeOf Returned r, s'))"
| "sqStep s GetAll = (case sqGetAllContacts s of (r, s') \<Rightarrow> (outcomeOf ReturnedList r, s'))"
| "sqStep s (Update i contactData now) =
     (case sqUpdateContact s i contactData now of (r, s') \<Rightarrow> (outcomeOf Returned r, s'))"
| "sqStep s (Delete i) = (case sqDeleteContact s i of (r, s') \<Rightarrow> (outcomeOf ReturnedBool r, s'))"
| "sqStep s (Search filters) =
     (case sqSearchContacts s filters of (r, s') \<Rightarrow> (outcomeOf ReturnedList r, s'))"
| "sqStep s (ToggleFavorite i now) =
     (case sqToggleFavorite s i now of (r, s') \<Rightarrow> (outcomeOf Returned r, s'))"
| "sqStep s GetStats = (case sqGetStats s of (r, s') \<Rightarrow> (outcomeOf ReturnedStats r, s'))"
| "sqStep s Export = (case sqExportContacts s of (r, s') \<Rightarrow> (outcomeOf ReturnedText r, s'))"
| "sqStep s (Import txt) =
     (case sqImportContacts s txt of (r, s') \<Rightarrow> (outcomeOf ReturnedCount r, s'))"
| "sqStep s ClearAll = (case sqClearAll s of (r, s') \<Rightarrow> (outcomeOf (\<lambda>u. ReturnedVoid) r, s'))"

fun sqRun :: "SQLiteContactDatabase \<Rightarrow> op list \<Rightarrow> outcome list \<times> SQLiteContactDatabase" where
  "sqRun s [] = ([], s)"
| "sqRun s (x # xs) =
     (case sqStep s x of (r, s') \<Rightarrow> (case sqRun s' xs of (rs, s'') \<Rightarrow> (r # rs, s'')))"

text \<open>The collection held by the second store (none before its first use).\<close>

definition sqContacts :: "SQLiteContactDatabase \<Rightarrow> jsmap" where
  "sqContacts s = (case db s of None \<Rightarrow> [] | Some h \<Rightarrow> handleContacts h)"

section \<open>The TypeScript interfaces as predicates\<close>


definition optionalStr :: "jsval \<Rightarrow> bool" where
  "optionalStr v = (v = JUndefined \<or> isStr v)"

fun isStrArray :: "jsval \<Rightarrow> bool" where
  "isStrArray (JArr xs) = list_all isStr xs"
| "isStrArray v = False"

fun isAddress :: "jsval \<Rightarrow> bool" where
  "isAddress (JObj ps) =
     (isStr (own ps ''street'') \<and> isStr (own ps ''city'') \<and> isStr (own ps ''state'')
      \<and> isStr (own ps ''zipCode'') \<and> isStr (own ps ''country''))"
| "isAddress v = False"

fun isDate :: "jsval \<Rightarrow> bool" where
  "isDate (JDate t) = True"
| "isDate v = False"

fun isBool :: "jsval \<Rightarrow> bool" where
  "isBool (JBool b) = True"
| "isBool v = False"



text \<open>\<^verbatim>\<open>Contact\<close>\<close>

definition isContact :: "jsval \<Rightarrow> bool" where
  "isContact c =
     (isStr (propOf c ''id'')
      \<and> isStr (propOf c ''firstName'') \<and> isStr (propOf c ''lastName'')
      \<and> isStr (propOf c ''email'') \<and> isStr (propOf c ''phone'')
      \<and> optionalStr (propOf c ''company'') \<and> optionalStr (propOf c ''jobTitle'')
      \<and> (propOf c ''address'' = JUndefined \<or> isAddress (propOf c ''address''))
      \<and> optionalStr (propOf c ''notes'')
      \<and> isStrArray (propOf c ''tags'')
      \<and> isDate (propOf c ''createdAt'') \<and> isDate (propOf c ''updatedAt'')
      \<and> isBool (propOf c ''isFavorite'')
      \<and> optionalStr (propOf c ''avatar''))"




section \<open>Notions used to state the properties\<close>

text \<open>No key of the map equals a later one.\<close>

fun keysDistinct :: "jsmap \<Rightarrow> bool" where
  "keysDistinct [] = True"
| "keysDistinct ((k, v) # m) = (\<not> mapHas m k \<and> keysDistinct m)"

text \<open>\<^verbatim>\<open>a <= b\<close>, on the same pairs as \<open>jsLess\<close>.\<close>

definition jsLessEq :: "jsval \<Rightarrow> jsval \<Rightarrow> bool" where
  "jsLessEq a b =
     (case (a, b) of
        (JStr s, JStr t) \<Rightarrow> s \<le> t
      | _ \<Rightarrow> (case (numeric a, numeric b) of (Some x, Some y) \<Rightarrow> x \<le> y | _ \<Rightarrow> False))"

fun strOf :: "jsval \<Rightarrow> string" where
  "strOf (JStr s) = s"
| "strOf v = []"

fun elemsOf :: "jsval \<Rightarrow> jsval list" where
  "elemsOf (JArr xs) = xs"
| "elemsOf v = []"

text \<open>A tag that is a string and not the name of a member of \<^verbatim>\<open>Object.prototype\<close>.\<close>

fun plainTag :: "jsval \<Rightarrow> bool" where
  "plainTag (JStr t) = (t \<notin> set objectPrototypeNames)"
| "plainTag v = False"

definition hasPlainTags :: "jsval \<Rightarrow> bool" where
  "hasPlainTags c = (case propOf c ''tags'' of JArr ts \<Rightarrow> list_all plainTag ts | _ \<Rightarrow> False)"

text \<open>
  Two invariants of the collection: every contact is stored under its own \<^verbatim>\<open>id\<close>
  and no key repeats; every contact's timestamps are dates with
  \<^verbatim>\<open>createdAt\<close> \<open>\<le>\<close> \<^verbatim>\<open>updatedAt\<close> \<open>\<le> T\<close>.
\<close>

definition idInv :: "jsmap \<Rightarrow> bool" where
  "idInv m = (keysDistinct m \<and> list_all (\<lambda>(k, c). propOf c ''id'' = k) m)"


text \<open>The tag counters \<open>p\<close> hold exactly the non-zero counts of \<open>f\<close>.\<close>

definition tallies :: "props \<Rightarrow> (string \<Rightarrow> nat) \<Rightarrow> bool" where
  "tallies p f = (distinct (map fst p)
     \<and> (\<forall>t. map_of p t = (if f t = 0 then None else Some (JNum (int (f t))))))"

subsection \<open>Example data\<close>

definition emptyStorage :: LocalStorage where
  "emptyStorage = \<lparr>items = Map.empty, getItemThrows = False, setItemThrows = False\<rparr>"

definition emptyStore :: ContactDatabase where
  "emptyStore = new_ContactDatabase emptyStorage"

definition johnDoe :: props where
  "johnDoe = [(''firstName'', JStr ''John''), (''lastName'', JStr ''Doe''),
     (''email'', JStr ''john@example.org''), (''phone'', JStr ''555-0100''),
     (''tags'', JArr [JStr ''work''])]"

definition janeSmith :: props where
  "janeSmith = [(''firstName'', JStr ''Jane''), (''lastName'', JStr ''Smith''),
     (''email'', JStr []), (''phone'', JStr ''1-800-FLOWERS''),
     (''company'', JStr ''Acme''), (''tags'', JArr [JStr ''design'', JStr ''work''])]"

definition johnId :: string where
  "johnId = generateId 1000 ''abc''"

definition storeWithJohn :: ContactDatabase where
  "storeWithJohn = snd (createContact emptyStore 1000 ''abc'' 1001 johnDoe)"

definition opsJohn :: "op list" where
  "opsJohn = [Create 1000 ''abc'' 1001 johnDoe]"

text \<open>A record as an export of another installation might hold it.\<close>

definition backdatedRecord :: jsval where
  "backdatedRecord = JObj [(''id'', JStr ''a1''), (''firstName'', JStr ''Ann''),
     (''lastName'', JStr ''Lee''), (''email'', JStr ''ann@example.org''), (''phone'', JStr ''555-0101''),
     (''tags'', JArr []), (''createdAt'', JStr ''2025-06-01T00:00:00.000Z''),
     (''updatedAt'', JStr ''2024-01-01T00:00:00.000Z''), (''isFavorite'', JBool False)]"

definition storeWithImport :: ContactDatabase where
  "storeWithImport = snd (importContacts emptyStore (JsonText (JArr [backdatedRecord])))"

text \<open>A record without \<^verbatim>\<open>tags\<close>, and form data that repeats a tag.\<close>

definition recordWithoutTags :: jsval where
  "recordWithoutTags = JObj [(''id'', JStr ''b2''), (''firstName'', JStr ''Bob''),
     (''lastName'', JStr ''Ray''), (''email'', JStr ''bob@example.org''), (''phone'', JStr ''555-0102'')]"

definition storeWithoutTags :: ContactDatabase where
  "storeWithoutTags = snd (importContacts emptyStore (JsonText (JArr [recordWithoutTags])))"

definition repeatedTag :: props where
  "repeatedTag = [(''firstName'', JStr ''Cyd''), (''lastName'', JStr ''Fox''),
     (''email'', JStr ''cyd@example.org''), (''phone'', JStr ''555-0103''),
     (''tags'', JArr [JStr ''vip'', JStr ''vip''])]"

definition storeWithRepeatedTag :: ContactDatabase where
  "storeWithRepeatedTag = snd (createContact emptyStore 1000 ''abc'' 1001 repeatedTag)"

definition inheritedNameTag :: props where
  "inheritedNameTag = [(''firstName'', JStr ''Dee''), (''lastName'', JStr ''Kim''),
     (''email'', JStr ''dee@example.org''), (''phone'', JStr ''555-0104''),
     (''tags'', JArr [JStr ''toString''])]"

text \<open>
  What the search stages are to keep, and the key and order of the sorting stage:
  a text match is a match of the lower-cased term in the lower-cased name, e-mail or
  company, or in the phone text as it is.
\<close>

definition textMatches :: "string \<Rightarrow> jsval \<Rightarrow> bool" where
  "textMatches term c =
     (sublist term (toLowerCase (strOf (propOf c ''firstName'')))
      \<or> sublist term (toLowerCase (strOf (propOf c ''lastName'')))
      \<or> sublist term (toLowerCase (strOf (propOf c ''email'')))
      \<or> sublist term (strOf (propOf c ''phone''))
      \<or> sublist term (toLowerCase (strOf (propOf c ''company''))))"

definition keptBy :: "ContactFilters \<Rightarrow> jsval \<Rightarrow> bool" where
  "keptBy filters c =
     ((case search filters of
         Some s \<Rightarrow> s = [] \<or> textMatches (toLowerCase s) c
       | None \<Rightarrow> True)
      \<and> (case tags filters of
           Some ts \<Rightarrow> ts = [] \<or> (\<exists>t \<in> set ts. JStr t \<in> set (elemsOf (propOf c ''tags'')))
         | None \<Rightarrow> True)
      \<and> (case isFavorite filters of
           Some b \<Rightarrow> propOf c ''isFavorite'' = JBool b
         | None \<Rightarrow> True))"

definition sortKey :: "SortBy \<Rightarrow> jsval \<Rightarrow> jsval" where
  "sortKey by c =
     (if by = ByFirstName \<or> by = ByLastName
      then JStr (toLowerCase (strOf (propOf c (sortByName by))))
      else propOf c (sortByName by))"

definition inOrder :: "SortBy \<Rightarrow> SortOrder option \<Rightarrow> jsval \<Rightarrow> jsval \<Rightarrow> bool" where
  "inOrder by order a b =
     (if order = Some Desc then jsLessEq (sortKey by b) (sortKey by a)
      else jsLessEq (sortKey by a) (sortKey by b))"

definition storeWithTwo :: ContactDatabase where
  "storeWithTwo = snd (createContact storeWithJohn 2000 ''xyz'' 2002 janeSmith)"

definition noFilters :: ContactFilters where
  "noFilters = \<lparr>search = None, tags = None, isFavorite = None, sortBy = None, sortOrder = None\<rparr>"

definition byFirstName :: ContactFilters where
  "byFirstName = \<lparr>search = None, tags = Some [''work''], isFavorite = Some False,
     sortBy = Some ByFirstName, sortOrder = None\<rparr>"

definition searchFlowers :: ContactFilters where
  "searchFlowers = \<lparr>search = Some ''FLOWERS'', tags = None, isFavorite = None,
     sortBy = None, sortOrder = None\<rparr>"

definition emptyTagList :: ContactFilters where
  "emptyTagList = \<lparr>search = None, tags = Some [], isFavorite = None,
     sortBy = None, sortOrder = None\<rparr>"

text \<open>A store whose \<^verbatim>\<open>localStorage\<close> refuses every write.\<close>

definition failingStore :: ContactDatabase where
  "failingStore = new_ContactDatabase (emptyStorage\<lparr>setItemThrows := True\<rparr>)"

text \<open>The same store with a \<^verbatim>\<open>localStorage\<close> that accepts writes.\<close>

definition withWritableStorage :: "ContactDatabase \<Rightarrow> ContactDatabase" where
  "withWritableStorage d = d\<lparr>localStorage := (localStorage d)\<lparr>setItemThrows := False\<rparr>\<rparr>"

text \<open>The operations that change the collection.\<close>

fun mutating :: "op \<Rightarrow> bool" where
  "mutating (Create dateNow rnd now contactData) = True"
| "mutating (Update i contactData now) = True"
| "mutating (Delete i) = True"
| "mutating (ToggleFavorite i now) = True"
| "mutating (Import jsonData) = True"
| "mutating ClearAll = True"
| "mutating x = False"

text \<open>
  The two stores hold the same collection: the second one either has its handle, with the
  same map, or has not been used yet while the first is empty and the second's slot is
  absent or cannot be read.
\<close>

definition agree :: "ContactDatabase \<Rightarrow> SQLiteContactDatabase \<Rightarrow> bool" where
  "agree d s =
     (if isInitialized s
      then (case db s of Some h \<Rightarrow> handleContacts h = contacts d | None \<Rightarrow> False)
      else contacts d = [] \<and> db s = None
        \<and> (getItemThrows (sqLocalStorage s) \<or> items (sqLocalStorage s) sqSlot = None))"

definition noConfig :: PartialDatabaseConfig where
  "noConfig = \<lparr>dbPath_opt = None, autoBackup_opt = None, backupInterval_opt = None\<rparr>"

text \<open>
  What an import stores, said without the loop: the record at position \<open>i\<close> of the
  array is accepted when its \<^verbatim>\<open>id\<close> is truthy, is not a key of the map the import
  starts from, and is the \<^verbatim>\<open>id\<close> of no earlier record of the array; the entries
  stored are the accepted records under their ids, in the order of the array.
\<close>

definition accepted :: "jsmap \<Rightarrow> jsval list \<Rightarrow> nat \<Rightarrow> bool" where
  "accepted m records i =
     (truthy (propOf (records ! i) ''id'')
      \<and> \<not> mapHas m (propOf (records ! i) ''id'')
      \<and> list_all (\<lambda>j. \<not> sameValueZero (propOf (records ! j) ''id'') (propOf (records ! i) ''id''))
           [0..<i])"

definition storedBy :: "jsmap \<Rightarrow> jsval list \<Rightarrow> jsmap" where
  "storedBy m records =
     map (\<lambda>i. (propOf (records ! i) ''id'', records ! i))
       (filter (accepted m records) [0..<length records])"

text \<open>
  An array with two records of the same new id, a record with a number as id and a
  record without id.
\<close>

definition sameIdRecord :: jsval where
  "sameIdRecord = JObj [(''id'', JStr ''a1''), (''firstName'', JStr ''Bea'')]"

definition numberIdRecord :: jsval where
  "numberIdRecord = JObj [(''id'', JNum 5), (''firstName'', JStr ''Cy'')]"

definition recordWithoutId :: jsval where
  "recordWithoutId = JObj [(''firstName'', JStr ''Dee'')]"

definition mixedRecords :: "jsval list" where
  "mixedRecords = [backdatedRecord, sameIdRecord, numberIdRecord, recordWithoutId]"

text \<open>
  A contact whose first name starts with a capital letter outside ASCII (U+00C9, E with
  acute), and a search for the small letter (U+00E9).
\<close>

definition ecole :: props where
  "ecole = [(''firstName'', JStr (CHR 0xC9 # ''cole'')), (''lastName'', JStr ''Normale''),
     (''email'', JStr ''ens@example.org''), (''phone'', JStr ''555-0103'')]"

definition storeWithEcole :: ContactDatabase where
  "storeWithEcole = snd (createContact emptyStore 3000 ''q'' 3001 ecole)"

definition searchAccent :: ContactFilters where
  "searchAccent = \<lparr>search = Some [CHR 0xE9], tags = None, isFavorite = None,
     sortBy = None, sortOrder = None\<rparr>"

section \<open>Basic facts about objects and maps\<close>

lemma own_Nil [simp]: "own [] k = JUndefined"
  by (simp add: own_def)

lemma own_not_key: "k \<notin> fst ` set ps \<Longrightarrow> own ps k = JUndefined"
  by (simp add: own_def map_of_eq_None_iff[THEN iffD2])

lemma own_append:
  "own (xs @ ys) k = (if k \<in> fst ` set ys then own ys k else own xs k)"
proof (cases "map_of (rev ys) k")
  case None
  then have "k \<notin> fst ` set ys" by (simp add: map_of_eq_None_iff)
  then show ?thesis using None by (simp add: own_def map_add_def)
next
  case (Some v)
  then have "k \<in> fst ` set ys" using map_of_eq_None_iff[of "rev ys" k] by auto
  then show ?thesis using Some by (simp add: own_def map_add_def)
qed

lemma own_Cons:
  "own ((k', v) # ps) k = (if k \<in> fst ` set ps then own ps k else if k = k' then v else JUndefined)"
  using own_append[of "[(k', v)]" ps k] by (simp add: own_def)

lemma map_fst_setProp:
  "map fst (setProp ps k v) = (if k \<in> fst ` set ps then map fst ps else map fst ps @ [k])"
proof (induction ps)
  case Nil
  show ?case by simp
next
  case (Cons p ps)
  obtain k' v' where p: "p = (k', v')" by (cases p)
  show ?case using Cons by (cases "k' = k") (simp_all add: p)
qed

lemma keys_setProp: "fst ` set (setProp ps k v) = insert k (fst ` set ps)"
proof -
  have "set (map fst (setProp ps k v)) = insert k (fst ` set ps)"
    unfolding map_fst_setProp by auto
  then show ?thesis by simp
qed

lemma distinct_setProp: "distinct (map fst ps) \<Longrightarrow> distinct (map fst (setProp ps k v))"
  unfolding map_fst_setProp by auto

lemma map_of_setProp: "map_of (setProp ps k v) = (map_of ps)(k \<mapsto> v)"
  by (induction ps) auto

lemma map_of_rev_distinct: "distinct (map fst ps) \<Longrightarrow> map_of (rev ps) = map_of ps"
proof (induction ps)
  case Nil
  show ?case by simp
next
  case (Cons p ps)
  obtain k v where p: "p = (k, v)" by (cases p)
  from Cons have ih: "map_of (rev ps) = map_of ps" and nk: "map_of ps k = None"
    by (auto simp: p map_of_eq_None_iff)
  show ?case
    by (rule ext) (simp add: p ih nk map_add_def split: option.splits)
qed

lemma own_distinct:
  "distinct (map fst ps) \<Longrightarrow> own ps k = (case map_of ps k of Some v \<Rightarrow> v | None \<Rightarrow> JUndefined)"
  by (simp add: own_def map_of_rev_distinct)

lemma own_setProp:
  "distinct (map fst ps) \<Longrightarrow> own (setProp ps k v) k' = (if k' = k then v else own ps k')"
  by (simp add: own_distinct distinct_setProp map_of_setProp)

lemma assign_snoc: "assign t (s @ [(k, v)]) = setProp (assign t s) k v"
  by (simp add: assign_def)

lemma distinct_assign: "distinct (map fst t) \<Longrightarrow> distinct (map fst (assign t s))"
proof (induction s rule: rev_induct)
  case Nil
  then show ?case by (simp add: assign_def)
next
  case (snoc x s)
  then show ?case by (cases x) (simp add: assign_snoc distinct_setProp)
qed

lemma own_assign: "own (assign [] s) k = own s k"
proof (induction s rule: rev_induct)
  case Nil
  show ?case by (simp add: assign_def)
next
  case (snoc x s)
  obtain k' v where x: "x = (k', v)" by (cases x)
  have "distinct (map fst (assign [] s))" by (simp add: distinct_assign)
  then show ?case using snoc
    by (simp add: x assign_snoc own_setProp own_append own_Cons)
qed

lemmas own_simps = own_assign own_Cons own_append

lemma sameValueZero_Str [simp]: "sameValueZero k (JStr a) \<longleftrightarrow> k = JStr a"
  by (cases k) (auto simp: sameValueZero_def)

lemma sameValueZero_Str_left [simp]: "sameValueZero (JStr a) k \<longleftrightarrow> k = JStr a"
  by (auto simp: sameValueZero_def)

lemma sameValueZero_eq: "sameValueZero a b \<Longrightarrow> a = b"
  by (cases a) (auto simp: sameValueZero_def)


lemma mapGet_mapSet_Str:
  "mapGet (mapSet m (JStr a) v) (JStr b) = (if a = b then v else mapGet m (JStr b))"
  by (induction m) auto

lemma mapHas_mapSet_Str:
  "mapHas (mapSet m (JStr a) v) (JStr b) = (a = b \<or> mapHas m (JStr b))"
  by (induction m) (auto split: if_splits)

lemma contacts_saveToStorage [simp]: "contacts (saveToStorage d) = contacts d"
  by (simp add: saveToStorage_def split: sum.splits)




lemma jsLess_Date [simp]: "jsLess (JDate a) (JDate b) = (a < b)"
  by (simp add: jsLess_def)

lemma contacts_emptyStore [simp]: "contacts emptyStore = []"
  by (simp add: emptyStore_def new_ContactDatabase_def loadFromStorage_def emptyStorage_def
      getItem_def bindE_def)

lemma johnId_eq: "johnId = ''rsabc''"
  unfolding johnId_def by code_simp

lemma storeWithJohn_contacts:
  "contacts storeWithJohn =
     [(JStr ''rsabc'',
       JObj [(''id'', JStr ''rsabc''), (''firstName'', JStr ''John''), (''lastName'', JStr ''Doe''),
             (''email'', JStr ''john@example.org''), (''phone'', JStr ''555-0100''),
             (''tags'', JArr [JStr ''work'']), (''createdAt'', JDate 1001),
             (''updatedAt'', JDate 1001), (''isFavorite'', JBool False)])]"
  unfolding storeWithJohn_def
  by (simp add: createContact_def Let_def johnId_eq[unfolded johnId_def] johnDoe_def assign_def
      own_Cons)


section \<open>Invariants of the collection\<close>

lemma mapHas_iff: "mapHas m k \<longleftrightarrow> (\<exists>(k', v) \<in> set m. sameValueZero k' k)"
  by (induction m) auto



lemma mapSet_absent: "\<not> mapHas m k \<Longrightarrow> mapSet m k v = m @ [(k, v)]"
  by (induction m) auto





















lemma run_opsJohn: "run emptyStore opsJohn = ([Returned (fst (createContact emptyStore 1000 ''abc'' 1001 johnDoe))], storeWithJohn)"
  by (simp add: opsJohn_def storeWithJohn_def split: prod.splits)

lemma generateId_2000: "generateId 2000 ''xyz'' = ''1jkxyz''"
  by code_simp











lemma jsLessEq_Date [simp]: "jsLessEq (JDate a) (JDate b) = (a \<le> b)"
  by (simp add: jsLessEq_def)

lemma importLoop_single:
  "importContacts emptyStore (JsonText (JArr [backdatedRecord])) = X \<Longrightarrow> contacts (snd X) = [(JStr ''a1'', backdatedRecord)]"
  by (auto simp: importContacts_def bindE_def getProp_def backdatedRecord_def own_Cons)

section \<open>Facts about import and export\<close>

lemma mapHas_append: "mapHas (m @ m') k = (mapHas m k \<or> mapHas m' k)"
  by (induction m) auto

lemma importLoop_count:
  assumes "list_all (\<lambda>c. isStr (propOf c ''id'') \<and> truthy (propOf c ''id'')) recs"
    and "distinct (map (\<lambda>c. propOf c ''id'') recs)"
  shows "snd (importLoop m n recs)
     = Inr (n + length (filter (\<lambda>c. \<not> mapHas m (propOf c ''id'')) recs))"
  using assms
proof (induction recs arbitrary: m n)
  case Nil
  show ?case by simp
next
  case (Cons c recs)
  let ?i = "propOf c ''id''"
  obtain s where s: "?i = JStr s" using Cons.prems(1) by (cases ?i) auto
  have cne: "c \<noteq> JNull" "c \<noteq> JUndefined" using s by auto
  have g: "getProp c ''id'' = Inr ?i" using cne by (simp add: getProp_def)
  have tr: "truthy ?i" using Cons.prems(1) by simp
  have rest: "list_all (\<lambda>c. isStr (propOf c ''id'') \<and> truthy (propOf c ''id'')) recs"
    "distinct (map (\<lambda>c. propOf c ''id'') recs)"
    using Cons.prems by simp_all
  show ?case
  proof (cases "mapHas m ?i")
    case True
    then show ?thesis using g Cons.IH[OF rest, of m n] by simp
  next
    case False
    have same: "filter (\<lambda>c'. \<not> mapHas (m @ [(?i, c)]) (propOf c' ''id'')) recs
        = filter (\<lambda>c'. \<not> mapHas m (propOf c' ''id'')) recs"
    proof (rule filter_cong[OF refl])
      fix c' assume "c' \<in> set recs"
      then have "propOf c' ''id'' \<noteq> ?i" using Cons.prems(2) by (auto simp: image_iff)
      then show "(\<not> mapHas (m @ [(?i, c)]) (propOf c' ''id'')) = (\<not> mapHas m (propOf c' ''id''))"
        by (auto simp: mapHas_append dest: sameValueZero_eq)
    qed
    show ?thesis using False g tr Cons.IH[OF rest, of "m @ [(?i, c)]" "n + 1"]
      by (simp add: mapSet_absent same)
  qed
qed

lemma storeWithImport_contacts: "contacts storeWithImport = [(JStr ''a1'', backdatedRecord)]"
  by (simp add: storeWithImport_def importLoop_single)

lemma toJSON_undefined_iff [simp]: "toJSON v = JUndefined \<longleftrightarrow> v = JUndefined"
  by (cases v) auto

lemma toJSON_undefined_iff' [simp]: "JUndefined = toJSON v \<longleftrightarrow> v = JUndefined"
  by (cases v) auto

lemma keys_toJSONProps: "k \<in> fst ` set (toJSONProps ps) \<Longrightarrow> k \<in> fst ` set ps"
proof (induction ps)
  case Nil
  then show ?case by simp
next
  case (Cons p ps)
  obtain k' v where p: "p = (k', v)" by (cases p)
  show ?case using Cons by (cases "v = JUndefined") (auto simp: p)
qed

lemma own_toJSONProps: "own ps k \<noteq> JUndefined \<Longrightarrow> own (toJSONProps ps) k = toJSON (own ps k)"
proof (induction ps)
  case Nil
  then show ?case by simp
next
  case (Cons p ps)
  obtain k' v where p: "p = (k', v)" by (cases p)
  show ?case
  proof (cases "k \<in> fst ` set ps")
    case True
    then have o: "own (p # ps) k = own ps k" by (simp add: p own_Cons)
    with Cons have ih: "own (toJSONProps ps) k = toJSON (own ps k)" by simp
    have "k \<in> fst ` set (toJSONProps ps)"
    proof (rule ccontr)
      assume "k \<notin> fst ` set (toJSONProps ps)"
      then have "own (toJSONProps ps) k = JUndefined" by (rule own_not_key)
      with ih Cons.prems o show False by simp
    qed
    then show ?thesis using ih o by (simp add: p own_Cons)
  next
    case False
    then have o: "own (p # ps) k = (if k = k' then v else JUndefined)" by (simp add: p own_Cons)
    with Cons.prems have kv: "k = k'" "v \<noteq> JUndefined" by (auto split: if_splits)
    have "k \<notin> fst ` set (toJSONProps ps)" using False keys_toJSONProps by blast
    then show ?thesis using kv o by (simp add: p own_Cons)
  qed
qed

lemma toJSONList_map: "list_all (\<lambda>v. v \<noteq> JUndefined) vs \<Longrightarrow> toJSONList vs = map toJSON vs"
  by (induction vs) auto

lemma importLoop_images:
  assumes "idInv m" "list_all (\<lambda>(k, c). isStr k \<and> truthy k) m"
    "\<forall>(k, c) \<in> set m. \<not> mapHas acc k"
  shows "importLoop acc n (map (\<lambda>(k, c). toJSON c) m)
     = (acc @ map (\<lambda>(k, c). (k, toJSON c)) m, Inr (n + length m))"
  using assms
proof (induction m arbitrary: acc n)
  case Nil
  show ?case by simp
next
  case (Cons p m)
  obtain k c where p: "p = (k, c)" by (cases p)
  from Cons.prems(2) obtain s where k: "k = JStr s" "s \<noteq> []" by (cases k) (auto simp: p)
  from Cons.prems(1) have id: "propOf c ''id'' = k" and nk: "\<not> mapHas m k" and inv: "idInv m"
    by (auto simp: idInv_def p)
  from id k obtain ps where c: "c = JObj ps" "own ps ''id'' = JStr s"
    by (cases c) auto
  have g: "getProp (toJSON c) ''id'' = Inr k"
    using c k own_toJSONProps[of ps "''id''"] by (simp add: getProp_def)
  have new: "\<not> mapHas acc k" using Cons.prems(3) by (simp add: p)
  have rest: "\<forall>(k', c') \<in> set m. \<not> mapHas (acc @ [(k, toJSON c)]) k'"
    using Cons.prems(3) nk by (auto simp: p mapHas_append mapHas_iff k)
  have "importLoop (acc @ [(k, toJSON c)]) (n + 1) (map (\<lambda>(k, c). toJSON c) m)
     = ((acc @ [(k, toJSON c)]) @ map (\<lambda>(k, c). (k, toJSON c)) m, Inr (n + 1 + length m))"
    using Cons.IH[OF inv _ rest] Cons.prems(2) by (simp add: p)
  then show ?case using g new k by (simp add: p mapSet_absent)
qed

lemma toISOString_1001: "toISOString 1001 = ''1970-01-01T00:00:01.001Z''"
  by code_simp

lemma idInv_storeWithImport: "idInv (contacts storeWithImport)"
  by (simp add: storeWithImport_contacts idInv_def backdatedRecord_def own_Cons)

lemma toJSON_backdatedRecord: "toJSON backdatedRecord = backdatedRecord"
  by (simp add: backdatedRecord_def)

section \<open>Facts about the statistics\<close>

lemma tallies_bumpTag:
  assumes "tallies p f" "t \<notin> set objectPrototypeNames"
  shows "tallies (bumpTag p (JStr t)) (f(t := f t + 1))"
proof -
  from assms(1) have d: "distinct (map fst p)"
    and m: "\<And>t. map_of p t = (if f t = 0 then None else Some (JNum (int (f t))))"
    by (auto simp: tallies_def)
  have np: "t \<noteq> ''__proto__''" using assms(2) by (auto simp: objectPrototypeNames_def)
  have b: "bumpTag p (JStr t) = setProp p t (JNum (int (f t) + 1))"
    using assms(2) np by (simp add: bumpTag_def map_of_rev_distinct[OF d] m plusOne_def)
  show ?thesis
    unfolding b tallies_def
    by (auto simp: distinct_setProp[OF d] map_of_setProp m)
qed

lemma tallies_foldl:
  "tallies p f \<Longrightarrow> list_all plainTag ts
     \<Longrightarrow> tallies (foldl bumpTag p ts) (\<lambda>t. f t + count_list ts (JStr t))"
proof (induction ts arbitrary: p f)
  case Nil
  then show ?case by simp
next
  case (Cons x ts)
  from Cons.prems(2) obtain t where x: "x = JStr t" "t \<notin> set objectPrototypeNames"
    by (cases x) auto
  have "tallies (bumpTag p x) (f(t := f t + 1))"
    using tallies_bumpTag[OF Cons.prems(1) x(2)] by (simp add: x)
  from Cons.IH[OF this] Cons.prems(2)
  have "tallies (foldl bumpTag (bumpTag p x) ts)
     (\<lambda>t'. (f(t := f t + 1)) t' + count_list ts (JStr t'))" by simp
  moreover have "(\<lambda>t'. (f(t := f t + 1)) t' + count_list ts (JStr t'))
     = (\<lambda>t'. f t' + count_list (x # ts) (JStr t'))"
    by (auto simp: x)
  ultimately show ?case by simp
qed

lemma tallies_tagLoop:
  "tallies p f \<Longrightarrow> list_all hasPlainTags cs
     \<Longrightarrow> \<exists>p'. tagLoop p cs = Inr p'
          \<and> tallies p' (\<lambda>t. f t + count_list (concat (map (\<lambda>c. elemsOf (propOf c ''tags'')) cs)) (JStr t))"
proof (induction cs arbitrary: p f)
  case Nil
  then show ?case by simp
next
  case (Cons c cs)
  from Cons.prems(2) obtain ts where ts: "propOf c ''tags'' = JArr ts" "list_all plainTag ts"
    by (auto simp: hasPlainTags_def split: jsval.splits)
  then have g: "getProp c ''tags'' = Inr (JArr ts)"
    by (cases c) (auto simp: getProp_def)
  from Cons.IH[OF tallies_foldl[OF Cons.prems(1) ts(2)]] Cons.prems(2)
  obtain p' where "tagLoop (foldl bumpTag p ts) cs = Inr p'"
    "tallies p' (\<lambda>t. f t + count_list ts (JStr t)
        + count_list (concat (map (\<lambda>c. elemsOf (propOf c ''tags'')) cs)) (JStr t))"
    by auto
  then show ?case using g ts by (simp add: bindE_def add.assoc)
qed

lemma filterE_truthyField:
  "list_all (\<lambda>c. c \<noteq> JNull \<and> c \<noteq> JUndefined) cs
     \<Longrightarrow> filterE (truthyField field) cs = Inr (filter (\<lambda>c. truthy (propOf c field)) cs)"
  by (induction cs) (auto simp: truthyField_def getProp_def bindE_def)

lemma hasPlainTags_nonnull: "hasPlainTags c \<Longrightarrow> c \<noteq> JNull \<and> c \<noteq> JUndefined"
  by (auto simp: hasPlainTags_def)

lemma tallies_own:
  "tallies p f \<Longrightarrow> own p t = (if f t = 0 then JUndefined else JNum (int (f t)))"
  by (simp add: tallies_def own_distinct)

lemma storeWithoutTags_contacts: "contacts storeWithoutTags = [(JStr ''b2'', recordWithoutTags)]"
  by (simp add: storeWithoutTags_def importContacts_def bindE_def getProp_def recordWithoutTags_def
      own_Cons)

lemma storeWithRepeatedTag_contacts:
  "contacts storeWithRepeatedTag =
     [(JStr ''rsabc'',
       JObj [(''id'', JStr ''rsabc''), (''firstName'', JStr ''Cyd''), (''lastName'', JStr ''Fox''),
             (''email'', JStr ''cyd@example.org''), (''phone'', JStr ''555-0103''),
             (''tags'', JArr [JStr ''vip'', JStr ''vip'']), (''createdAt'', JDate 1001),
             (''updatedAt'', JDate 1001), (''isFavorite'', JBool False)])]"
  unfolding storeWithRepeatedTag_def
  by (simp add: createContact_def Let_def johnId_eq[unfolded johnId_def] repeatedTag_def assign_def
      own_Cons)

section \<open>Facts about searching and sorting\<close>

lemma includesStr_sublist: "includesStr s t \<longleftrightarrow> sublist t s"
  by (induction s) (auto simp: sublist_Cons_right)

lemma filterE_pure: "(\<And>x. x \<in> set xs \<Longrightarrow> f x = Inr (P x)) \<Longrightarrow> filterE f xs = Inr (filter P xs)"
  by (induction xs) auto

lemma someE_pure: "(\<And>x. x \<in> set xs \<Longrightarrow> f x = Inr (P x)) \<Longrightarrow> someE f xs = Inr (\<exists>x \<in> set xs. P x)"
  by (induction xs) auto

lemma mapE_pure: "(\<And>x. x \<in> set xs \<Longrightarrow> f x = Inr (g x)) \<Longrightarrow> mapE f xs = Inr (map g xs)"
  by (induction xs) auto

lemma isContact_obj: "isContact c \<Longrightarrow> \<exists>ps. c = JObj ps"
  by (cases c) (auto simp: isContact_def)

lemma isContact_getProp: "isContact c \<Longrightarrow> getProp c k = Inr (propOf c k)"
  using isContact_obj[of c] by (auto simp: getProp_def)

lemma isStr_strOf: "isStr v \<Longrightarrow> v = JStr (strOf v)"
  by (cases v) auto

lemma lowerIncludes_contact:
  "isContact c \<Longrightarrow> isStr (propOf c f)
     \<Longrightarrow> lowerIncludes c f term = Inr (sublist term (toLowerCase (strOf (propOf c f))))"
  using isStr_strOf[of "propOf c f"]
  by (cases "propOf c f") (auto simp: lowerIncludes_def isContact_getProp bindE_def includesStr_sublist)

lemma matchesSearch_contact:
  assumes "isContact c" "term \<noteq> []"
  shows "matchesSearch term c = Inr (textMatches term c)"
proof -
  have s: "isStr (propOf c ''firstName'')" "isStr (propOf c ''lastName'')"
    "isStr (propOf c ''email'')" "isStr (propOf c ''phone'')"
    and co: "optionalStr (propOf c ''company'')"
    using assms(1) by (auto simp: isContact_def)
  have ph: "bindE (getProp c ''phone'') (\<lambda>v. callIncludes v term)
      = Inr (sublist term (strOf (propOf c ''phone'')))"
    using s(4) by (cases "propOf c ''phone''")
      (auto simp: isContact_getProp[OF assms(1)] bindE_def includesStr_sublist)
  have cm: "bindE (getProp c ''company'') (\<lambda>v.
               if truthy v then bindE (callToLowerCase v) (\<lambda>s. Inr (includesStr s term))
               else Inr False)
      = Inr (sublist term (toLowerCase (strOf (propOf c ''company''))))"
    using co assms(2) by (cases "propOf c ''company''")
      (auto simp: isContact_getProp[OF assms(1)] bindE_def includesStr_sublist optionalStr_def
         toLowerCase_def)
  show ?thesis
    by (auto simp: matchesSearch_def lowerIncludes_contact[OF assms(1)] s ph cm orElse_def
        textMatches_def)
qed

lemma matchesTags_contact:
  assumes "isContact c"
  shows "matchesTags ts c = Inr (\<exists>t \<in> set ts. JStr t \<in> set (elemsOf (propOf c ''tags'')))"
proof -
  from assms have "isStrArray (propOf c ''tags'')" by (simp add: isContact_def)
  then obtain xs where xs: "propOf c ''tags'' = JArr xs" by (cases "propOf c ''tags''") auto
  have "list_ex (\<lambda>x. sameValueZero x (JStr t)) xs = (JStr t \<in> set xs)" for t
    by (auto simp: list_ex_iff)
  then show ?thesis
    unfolding matchesTags_def
    by (intro someE_pure) (simp add: isContact_getProp[OF assms] bindE_def xs)
qed

lemma matchesFavorite_contact:
  "isContact c \<Longrightarrow> matchesFavorite b c = Inr (propOf c ''isFavorite'' = JBool b)"
  by (simp add: matchesFavorite_def isContact_getProp bindE_def)

text \<open>The three filtering stages.\<close>

lemma filter_stages:
  assumes "list_all isContact cs"
  shows
    "bindE (case search filters of
              Some s \<Rightarrow> if s \<noteq> [] then filterE (matchesSearch (toLowerCase s)) cs else Inr cs
            | None \<Rightarrow> Inr cs) (\<lambda>results1.
     bindE (case tags filters of
              Some ts \<Rightarrow> if length ts > 0 then filterE (matchesTags ts) results1 else Inr results1
            | None \<Rightarrow> Inr results1) (\<lambda>results2.
     bindE (case isFavorite filters of
              Some b \<Rightarrow> filterE (matchesFavorite b) results2
            | None \<Rightarrow> Inr results2) k))
     = k (filter (keptBy filters) cs)"
proof -
  let ?P1 = "\<lambda>c. case search filters of Some s \<Rightarrow> s = [] \<or> textMatches (toLowerCase s) c | None \<Rightarrow> True"
  let ?P2 = "\<lambda>c. case tags filters of
           Some ts \<Rightarrow> ts = [] \<or> (\<exists>t \<in> set ts. JStr t \<in> set (elemsOf (propOf c ''tags'')))
         | None \<Rightarrow> True"
  let ?P3 = "\<lambda>c. case isFavorite filters of Some b \<Rightarrow> propOf c ''isFavorite'' = JBool b | None \<Rightarrow> True"
  have all: "\<And>c. c \<in> set cs \<Longrightarrow> isContact c" using assms by (simp add: list_all_iff)
  have 1: "(case search filters of
              Some s \<Rightarrow> if s \<noteq> [] then filterE (matchesSearch (toLowerCase s)) cs else Inr cs
            | None \<Rightarrow> Inr cs) = Inr (filter ?P1 cs)"
  proof (cases "search filters")
    case None
    then show ?thesis by simp
  next
    case (Some s)
    show ?thesis
    proof (cases "s = []")
      case True
      then show ?thesis using Some by simp
    next
      case False
      then have "toLowerCase s \<noteq> []" by (simp add: toLowerCase_def)
      then have "filterE (matchesSearch (toLowerCase s)) cs
          = Inr (filter (textMatches (toLowerCase s)) cs)"
        by (intro filterE_pure) (simp add: matchesSearch_contact all)
      then show ?thesis using Some False by simp
    qed
  qed
  have 2: "(case tags filters of
              Some ts \<Rightarrow> if length ts > 0 then filterE (matchesTags ts) xs else Inr xs
            | None \<Rightarrow> Inr xs) = Inr (filter ?P2 xs)" if "set xs \<subseteq> set cs" for xs
  proof (cases "tags filters")
    case None
    then show ?thesis by simp
  next
    case (Some ts)
    have "filterE (matchesTags ts) xs
          = Inr (filter (\<lambda>c. \<exists>t \<in> set ts. JStr t \<in> set (elemsOf (propOf c ''tags''))) xs)"
      using that by (intro filterE_pure) (auto simp: matchesTags_contact all)
    then show ?thesis using Some by (cases "ts = []") simp_all
  qed
  have 3: "(case isFavorite filters of
              Some b \<Rightarrow> filterE (matchesFavorite b) xs
            | None \<Rightarrow> Inr xs) = Inr (filter ?P3 xs)" if "set xs \<subseteq> set cs" for xs
  proof (cases "isFavorite filters")
    case None
    then show ?thesis by simp
  next
    case (Some b)
    have "filterE (matchesFavorite b) xs = Inr (filter (\<lambda>c. propOf c ''isFavorite'' = JBool b) xs)"
      using that by (intro filterE_pure) (auto simp: matchesFavorite_contact all)
    then show ?thesis using Some by simp
  qed
  have k: "keptBy filters = (\<lambda>c. ?P1 c \<and> ?P2 c \<and> ?P3 c)"
    by (rule ext) (simp add: keptBy_def)
  show ?thesis
    by (simp add: 1 bindE_def 2 3 k)
qed

lemma mset_insertBy: "mset (insertBy cmp x ys) = add_mset x (mset ys)"
  by (induction ys) auto

lemma mset_Array_sort: "mset (Array_sort cmp xs) = mset xs"
  by (induction xs) (auto simp: Array_sort_def mset_insertBy)

lemma set_insertBy: "set (insertBy cmp x ys) = insert x (set ys)"
  by (induction ys) auto

lemma set_Array_sort: "set (Array_sort cmp xs) = set xs"
  by (induction xs) (auto simp: Array_sort_def set_insertBy)

lemma sorted_insertBy:
  assumes tot: "\<forall>a \<in> S. \<forall>b \<in> S. cmp a b \<le> 0 \<or> cmp b a \<le> 0"
    and trans: "\<forall>a \<in> S. \<forall>b \<in> S. \<forall>c \<in> S. cmp a b \<le> 0 \<longrightarrow> cmp b c \<le> 0
                  \<longrightarrow> cmp a c \<le> 0"
    and x: "x \<in> S"
  shows "set ys \<subseteq> S \<Longrightarrow> sorted_wrt (\<lambda>a b. cmp a b \<le> 0) ys
           \<Longrightarrow> sorted_wrt (\<lambda>a b. cmp a b \<le> 0) (insertBy cmp x ys)"
proof (induction ys)
  case Nil
  show ?case by simp
next
  case (Cons y ys)
  have y: "y \<in> S" and ys: "set ys \<subseteq> S" using Cons.prems(1) by auto
  have sy: "\<forall>z \<in> set ys. cmp y z \<le> 0" and sys: "sorted_wrt (\<lambda>a b. cmp a b \<le> 0) ys"
    using Cons.prems(2) by auto
  show ?case
  proof (cases "cmp x y \<le> 0")
    case True
    have "cmp x z \<le> 0" if "z \<in> set ys" for z
    proof -
      have "z \<in> S" "cmp y z \<le> 0" using that ys sy by auto
      with trans x y True show ?thesis by blast
    qed
    then show ?thesis using True Cons.prems(2) by simp
  next
    case False
    then have yx: "cmp y x \<le> 0" using tot x y by blast
    have "sorted_wrt (\<lambda>a b. cmp a b \<le> 0) (insertBy cmp x ys)"
      using Cons.IH[OF ys sys] .
    then show ?thesis using False yx sy by (simp add: set_insertBy)
  qed
qed

lemma sorted_Array_sort:
  assumes tot: "\<forall>a \<in> S. \<forall>b \<in> S. cmp a b \<le> 0 \<or> cmp b a \<le> 0"
    and trans: "\<forall>a \<in> S. \<forall>b \<in> S. \<forall>c \<in> S. cmp a b \<le> 0 \<longrightarrow> cmp b c \<le> 0
                  \<longrightarrow> cmp a c \<le> 0"
  shows "set xs \<subseteq> S \<Longrightarrow> sorted_wrt (\<lambda>a b. cmp a b \<le> 0) (Array_sort cmp xs)"
proof (induction xs)
  case Nil
  show ?case by (simp add: Array_sort_def)
next
  case (Cons x xs)
  have x: "x \<in> S" and xs: "set xs \<subseteq> S" using Cons.prems by auto
  have sub: "set (Array_sort cmp xs) \<subseteq> S" using xs by (simp add: set_Array_sort)
  have "sorted_wrt (\<lambda>a b. cmp a b \<le> 0) (insertBy cmp x (Array_sort cmp xs))"
    using sorted_insertBy[OF tot trans x sub Cons.IH[OF xs]] .
  then show ?case by (simp add: Array_sort_def)
qed

lemma stable_insertBy:
  "(\<And>y. y \<in> set ys \<Longrightarrow> P x \<Longrightarrow> P y \<Longrightarrow> cmp x y \<le> 0)
     \<Longrightarrow> filter P (insertBy cmp x ys) = (if P x then x # filter P ys else filter P ys)"
  by (induction ys) auto

lemma stable_Array_sort:
  "(\<And>x y. x \<in> set xs \<Longrightarrow> y \<in> set xs \<Longrightarrow> P x \<Longrightarrow> P y \<Longrightarrow> cmp x y \<le> 0)
     \<Longrightarrow> filter P (Array_sort cmp xs) = filter P xs"
proof (induction xs)
  case Nil
  show ?case by (simp add: Array_sort_def)
next
  case (Cons x xs)
  have "filter P (insertBy cmp x (Array_sort cmp xs))
      = (if P x then x # filter P (Array_sort cmp xs) else filter P (Array_sort cmp xs))"
    using Cons.prems by (intro stable_insertBy) (auto simp: set_Array_sort)
  moreover have "filter P (Array_sort cmp xs) = filter P xs"
    using Cons by auto
  ultimately show ?case by (simp add: Array_sort_def)
qed

lemma jsLess_irrefl [simp]: "\<not> jsLess a a"
  by (cases a) (auto simp: jsLess_def)

lemma compare_Str:
  "(compareValues order (JStr a) (JStr b) \<le> 0) = (if order = Some Desc then b \<le> a else a \<le> b)"
  by (auto simp: compareValues_def jsLess_def)

lemma compare_Date:
  "(compareValues order (JDate a) (JDate b) \<le> 0) = (if order = Some Desc then b \<le> a else a \<le> b)"
  by (auto simp: compareValues_def jsLess_def)

lemma jsLessEq_Str [simp]: "jsLessEq (JStr a) (JStr b) = (a \<le> b)"
  by (simp add: jsLessEq_def)

lemma isDate_rep: "isDate v \<Longrightarrow> v = JDate (the (numeric v))"
  by (cases v) auto

lemma sortValue_contact: "isContact c \<Longrightarrow> sortValue by c = Inr (sortKey by c)"
proof -
  assume c: "isContact c"
  then have "isStr (propOf c ''firstName'')" "isStr (propOf c ''lastName'')"
    by (auto simp: isContact_def)
  then obtain fn ln where n: "propOf c ''firstName'' = JStr fn" "propOf c ''lastName'' = JStr ln"
    using isStr_strOf by blast
  show ?thesis
    by (cases "by") (simp_all add: sortValue_def sortKey_def isContact_getProp[OF c] bindE_def n)
qed

lemma sortKey_kind:
  assumes "isContact c"
  shows "(by \<in> {ByFirstName, ByLastName, ByEmail} \<longrightarrow> isStr (sortKey by c))
       \<and> (by \<in> {ByCreatedAt, ByUpdatedAt} \<longrightarrow> isDate (sortKey by c))"
  using assms by (cases "by") (auto simp: sortKey_def isContact_def)

lemma sorted_wrt_short: "length xs < 2 \<Longrightarrow> sorted_wrt R xs"
  by (cases xs) auto

lemma sortResults_contacts:
  assumes cs: "list_all isContact rs"
  shows "\<exists>res. sortResults by order rs = Inr res
     \<and> mset res = mset rs
     \<and> sorted_wrt (inOrder by order) res
     \<and> (\<forall>k. filter (\<lambda>c. sortKey by c = k) res = filter (\<lambda>c. sortKey by c = k) rs)"
proof (cases "length rs < 2")
  case True
  then show ?thesis by (simp add: sortResults_def sorted_wrt_short)
next
  case False
  let ?g = "sortKey by"
  let ?zs = "map (\<lambda>c. (?g c, c)) rs"
  let ?cmp = "\<lambda>a b. compareValues order (fst a) (fst b)"
  let ?S = "set ?zs"
  have all: "\<And>c. c \<in> set rs \<Longrightarrow> isContact c" using cs by (simp add: list_all_iff)
  have keys: "mapE (sortValue by) rs = Inr (map ?g rs)"
    by (intro mapE_pure) (simp add: sortValue_contact all)
  have zip: "zip (map ?g rs) rs = ?zs"
    by (induction rs) auto
  have kind: "(\<forall>c \<in> set rs. isStr (?g c)) \<or> (\<forall>c \<in> set rs. isDate (?g c))"
    using sortKey_kind all by (cases "by") auto
  have num: "isDate v \<Longrightarrow> numeric v \<noteq> None" for v by (cases v) auto
  have ok: "list_all isStr (map ?g rs) \<or> list_all (\<lambda>k. numeric k \<noteq> None) (map ?g rs)"
    using kind num by (auto simp: list_all_iff)
  have res: "sortResults by order rs = Inr (map snd (Array_sort ?cmp ?zs))"
    using False ok by (simp add: sortResults_def keys bindE_def zip)
  have le: "(?cmp z z' \<le> 0) = inOrder by order (snd z) (snd z')" if "z \<in> ?S" "z' \<in> ?S" for z z'
  proof -
    from that obtain c c' where c: "z = (?g c, c)" "z' = (?g c', c')" "c \<in> set rs" "c' \<in> set rs"
      by auto
    from kind show ?thesis
    proof
      assume "\<forall>c \<in> set rs. isStr (?g c)"
      then have "?g c = JStr (strOf (?g c))" "?g c' = JStr (strOf (?g c'))"
        using c isStr_strOf by auto
      then show ?thesis using compare_Str[of order "strOf (?g c)" "strOf (?g c')"]
        by (simp add: c inOrder_def) (metis jsLessEq_Str)
    next
      assume "\<forall>c \<in> set rs. isDate (?g c)"
      then have "?g c = JDate (the (numeric (?g c)))" "?g c' = JDate (the (numeric (?g c')))"
        using c isDate_rep by auto
      then show ?thesis using compare_Date[of order "the (numeric (?g c))" "the (numeric (?g c'))"]
        by (simp add: c inOrder_def) (metis jsLessEq_Date)
    qed
  qed
  have tot: "?cmp a b \<le> 0 \<or> ?cmp b a \<le> 0" if "a \<in> ?S" "b \<in> ?S" for a b
  proof -
    from that obtain c c' where c: "a = (?g c, c)" "b = (?g c', c')" "c \<in> set rs" "c' \<in> set rs"
      by auto
    from kind show ?thesis
    proof
      assume "\<forall>c \<in> set rs. isStr (?g c)"
      then have "?g c = JStr (strOf (?g c))" "?g c' = JStr (strOf (?g c'))"
        using c isStr_strOf by auto
      then show ?thesis
        using compare_Str[of order "strOf (?g c)" "strOf (?g c')"]
          compare_Str[of order "strOf (?g c')" "strOf (?g c)"]
        by (simp add: c) (metis linear)
    next
      assume "\<forall>c \<in> set rs. isDate (?g c)"
      then have "?g c = JDate (the (numeric (?g c)))" "?g c' = JDate (the (numeric (?g c')))"
        using c isDate_rep by auto
      then show ?thesis
        using compare_Date[of order "the (numeric (?g c))" "the (numeric (?g c'))"]
          compare_Date[of order "the (numeric (?g c'))" "the (numeric (?g c))"]
        by (simp add: c) (metis linear)
    qed
  qed
  have trans: "?cmp a c \<le> 0" if "a \<in> ?S" "b \<in> ?S" "c \<in> ?S" "?cmp a b \<le> 0" "?cmp b c \<le> 0" for a b c
  proof -
    from that obtain x y z where c: "a = (?g x, x)" "b = (?g y, y)" "c = (?g z, z)"
      "x \<in> set rs" "y \<in> set rs" "z \<in> set rs"
      by auto
    from kind show ?thesis
    proof
      assume "\<forall>c \<in> set rs. isStr (?g c)"
      then have r: "?g x = JStr (strOf (?g x))" "?g y = JStr (strOf (?g y))" "?g z = JStr (strOf (?g z))"
        using c isStr_strOf by auto
      show ?thesis
        using that(4,5) compare_Str[of order "strOf (?g x)" "strOf (?g y)"]
          compare_Str[of order "strOf (?g y)" "strOf (?g z)"]
          compare_Str[of order "strOf (?g x)" "strOf (?g z)"]
        unfolding c fst_conv
        by (metis r order_trans)
    next
      assume "\<forall>c \<in> set rs. isDate (?g c)"
      then have r: "?g x = JDate (the (numeric (?g x)))" "?g y = JDate (the (numeric (?g y)))"
        "?g z = JDate (the (numeric (?g z)))"
        using c isDate_rep by auto
      show ?thesis
        using that(4,5) compare_Date[of order "the (numeric (?g x))" "the (numeric (?g y))"]
          compare_Date[of order "the (numeric (?g y))" "the (numeric (?g z))"]
          compare_Date[of order "the (numeric (?g x))" "the (numeric (?g z))"]
        unfolding c fst_conv
        by (metis r order_trans)
    qed
  qed
  have srt: "sorted_wrt (\<lambda>a b. ?cmp a b \<le> 0) (Array_sort ?cmp ?zs)"
    by (rule sorted_Array_sort[where S="?S"]) (use tot trans in blast)+
  have 1: "mset (map snd (Array_sort ?cmp ?zs)) = mset rs"
  proof -
    have a: "mset (map snd (Array_sort ?cmp ?zs)) = mset (map snd ?zs)"
      by (simp only: mset_map mset_Array_sort)
    have b: "map snd ?zs = rs" by (simp add: comp_def)
    show ?thesis by (simp only: a b)
  qed
  have 2: "sorted_wrt (inOrder by order) (map snd (Array_sort ?cmp ?zs))"
    unfolding sorted_wrt_map
    by (rule sorted_wrt_mono_rel[OF _ srt]) (simp add: le set_Array_sort)
  have 3: "filter (\<lambda>c. ?g c = k) (map snd (Array_sort ?cmp ?zs)) = filter (\<lambda>c. ?g c = k) rs" for k
  proof -
    have eq0: "?cmp x y \<le> 0" if "x \<in> ?S" "y \<in> ?S" "?g (snd x) = k" "?g (snd y) = k" for x y
    proof -
      from that have "fst x = fst y" by auto
      then show ?thesis by (simp add: compareValues_def)
    qed
    have "filter (\<lambda>c. ?g c = k) (map snd (Array_sort ?cmp ?zs))
        = map snd (filter (\<lambda>z. ?g (snd z) = k) (Array_sort ?cmp ?zs))"
      by (simp add: filter_map comp_def)
    also have "filter (\<lambda>z. ?g (snd z) = k) (Array_sort ?cmp ?zs) = filter (\<lambda>z. ?g (snd z) = k) ?zs"
      by (rule stable_Array_sort) (use eq0 in blast)
    also have "map snd (filter (\<lambda>z. ?g (snd z) = k) ?zs) = filter (\<lambda>c. ?g c = k) rs"
      by (simp add: filter_map comp_def)
    finally show ?thesis .
  qed
  show ?thesis using res 1 2 3 by simp
qed

lemma storeWithTwo_contacts:
  "contacts storeWithTwo =
     [(JStr ''rsabc'',
       JObj [(''id'', JStr ''rsabc''), (''firstName'', JStr ''John''), (''lastName'', JStr ''Doe''),
             (''email'', JStr ''john@example.org''), (''phone'', JStr ''555-0100''),
             (''tags'', JArr [JStr ''work'']), (''createdAt'', JDate 1001),
             (''updatedAt'', JDate 1001), (''isFavorite'', JBool False)]),
      (JStr ''1jkxyz'',
       JObj [(''id'', JStr ''1jkxyz''), (''firstName'', JStr ''Jane''), (''lastName'', JStr ''Smith''),
             (''email'', JStr []), (''phone'', JStr ''1-800-FLOWERS''), (''company'', JStr ''Acme''),
             (''tags'', JArr [JStr ''design'', JStr ''work'']), (''createdAt'', JDate 2002),
             (''updatedAt'', JDate 2002), (''isFavorite'', JBool False)])]"
  unfolding storeWithTwo_def
  by (simp add: createContact_def Let_def generateId_2000 storeWithJohn_contacts janeSmith_def
      assign_def own_Cons)

lemma isContact_storeWithTwo: "list_all isContact (getAllContacts storeWithTwo)"
  by (simp add: getAllContacts_def mapValues_def storeWithTwo_contacts isContact_def own_Cons
      optionalStr_def)

lemma lower_FLOWERS: "toLowerCase ''FLOWERS'' = ''flowers''"
  by code_simp

lemma getAll_storeWithTwo:
  "getAllContacts storeWithTwo = map snd (contacts storeWithTwo)"
  by (simp add: getAllContacts_def mapValues_def)

lemma searchContacts_unsorted:
  assumes "list_all isContact (getAllContacts d)" "sortBy filters = None"
  shows "searchContacts d filters = Inr (filter (keptBy filters) (getAllContacts d))"
proof -
  have cs: "list_all isContact (mapValues (contacts d))"
    using assms(1) by (simp add: getAllContacts_def)
  show ?thesis
    unfolding searchContacts_def getAllContacts_def
    by (simp add: filter_stages[OF cs] assms(2))
qed

lemma search_sorted_example:
  "searchContacts storeWithTwo byFirstName
     = Inr [mapGet (contacts storeWithTwo) (JStr ''1jkxyz''), mapGet (contacts storeWithTwo) (JStr ''rsabc'')]"
  by code_simp

section \<open>Facts about persistence\<close>

lemma saveToStorage_throws:
  "setItemThrows (localStorage d)
     \<Longrightarrow> saveToStorage d = d\<lparr>console := console d @ [''Failed to save contacts to storage:'']\<rparr>"
  by (simp add: saveToStorage_def setItem_def)

lemma localStorage_saveToStorage_throws:
  "setItemThrows (localStorage d) \<Longrightarrow> localStorage (saveToStorage d) = localStorage d"
  by (simp add: saveToStorage_throws)

lemma contacts_withWritableStorage [simp]: "contacts (withWritableStorage d) = contacts d"
  by (simp add: withWritableStorage_def)

lemma searchContacts_contacts:
  "contacts d = contacts d' \<Longrightarrow> searchContacts d f = searchContacts d' f"
  unfolding searchContacts_def by (simp only:)

lemma getStats_contacts: "contacts d = contacts d' \<Longrightarrow> getStats d = getStats d'"
  unfolding getStats_def by (simp only:)

lemma step_outcome_independent_of_storage:
  "fst (step (withWritableStorage d) x) = fst (step d x)
   \<and> contacts (snd (step (withWritableStorage d) x)) = contacts (snd (step d x))"
proof (cases x)
  case (Create t r n cd)
  then show ?thesis by (simp add: createContact_def Let_def)
next
  case (Update i cd n)
  then show ?thesis by (simp add: updateContact_def Let_def)
next
  case (Delete i)
  then show ?thesis by (simp add: deleteContact_def Let_def)
next
  case (ToggleFavorite i n)
  then show ?thesis by (simp add: toggleFavorite_def Let_def)
next
  case (Import jsonData)
  then show ?thesis
    by (simp add: importContacts_def importFailed_def split: sum.splits prod.splits)
next
  case ClearAll
  then show ?thesis by (simp add: clearAll_def)
next
  case (Search f)
  then show ?thesis
    using searchContacts_contacts[of "withWritableStorage d" d f] by simp
next
  case GetStats
  then show ?thesis
    using getStats_contacts[of "withWritableStorage d" d] by simp
next
  case Export
  then show ?thesis by (simp add: exportContacts_def)
next
  case (Get i)
  then show ?thesis by (simp add: getContact_def)
next
  case GetAll
  then show ?thesis by (simp add: getAllContacts_def)
qed

lemma importContacts_not_DOMException: "fst (importContacts d jsonData) \<noteq> Inl DOMException"
  by (simp add: importContacts_def importFailed_def split: sum.splits prod.splits)

lemma filterE_error:
  "filterE f xs = Inl e \<Longrightarrow> \<exists>x \<in> set xs. f x = Inl e"
  by (induction xs) (auto split: sum.splits)

lemma someE_error: "someE f xs = Inl e \<Longrightarrow> \<exists>x \<in> set xs. f x = Inl e"
  by (induction xs) (auto split: sum.splits if_splits)

lemma mapE_error: "mapE f xs = Inl e \<Longrightarrow> \<exists>x \<in> set xs. f x = Inl e"
  by (induction xs) (auto split: sum.splits)

lemma step_keeps_storage_when_throwing:
  assumes "setItemThrows (localStorage d)"
  shows "localStorage (snd (step d x)) = localStorage d"
proof (cases x)
  case (Create t r n cd)
  then show ?thesis using assms by (simp add: createContact_def Let_def saveToStorage_throws)
next
  case (Update i cd n)
  then show ?thesis using assms by (simp add: updateContact_def Let_def saveToStorage_throws)
next
  case (Delete i)
  then show ?thesis using assms by (simp add: deleteContact_def Let_def saveToStorage_throws)
next
  case (ToggleFavorite i n)
  then show ?thesis using assms by (simp add: toggleFavorite_def Let_def saveToStorage_throws)
next
  case (Import jsonData)
  then show ?thesis using assms
    by (simp add: importContacts_def importFailed_def saveToStorage_throws
        split: sum.splits prod.splits)
next
  case ClearAll
  then show ?thesis using assms by (simp add: clearAll_def saveToStorage_throws)
qed simp_all

lemma mutating_not_DOMException: "mutating x \<Longrightarrow> fst (step d x) \<noteq> Thrown DOMException"
proof (cases x)
  case (Import jsonData)
  then show ?thesis using importContacts_not_DOMException[of d jsonData]
    by (auto simp: outcomeOf_def split: prod.splits sum.splits)
qed (auto split: prod.splits)

lemma load_starts_empty:
  assumes "getItemThrows ls \<or> items ls dbName = None \<or> items ls dbName = Some EmptyText
     \<or> items ls dbName = Some Malformed \<or> items ls dbName = Some (JsonText JNull)"
  shows "contacts (new_ContactDatabase ls) = []"
  using assms
  by (auto simp: new_ContactDatabase_def loadFromStorage_def getItem_def bindE_def)

lemma failingStore_fields:
  "contacts failingStore = []" "console failingStore = []"
  "localStorage failingStore = emptyStorage\<lparr>setItemThrows := True\<rparr>"
  by (simp_all add: failingStore_def new_ContactDatabase_def loadFromStorage_def getItem_def
      bindE_def emptyStorage_def)


subsection \<open>The two stores side by side\<close>

lemma sqLog_fields [simp]:
  "db (sqLog msg s) = db s" "isInitialized (sqLog msg s) = isInitialized s"
  "sqLocalStorage (sqLog msg s) = sqLocalStorage s" "config (sqLog msg s) = config s"
  by (simp_all add: sqLog_def)

lemma sqSaveToStorage_fields [simp]:
  "db (sqSaveToStorage s) = db s" "isInitialized (sqSaveToStorage s) = isInitialized s"
  by (simp_all add: sqSaveToStorage_def split: sum.splits)

lemma setContacts_fields [simp]:
  "db (setContacts s h m) = Some (h\<lparr>handleContacts := m\<rparr>)"
  "isInitialized (setContacts s h m) = isInitialized s"
  by (simp_all add: setContacts_def)

lemma ensureInitialized_agree:
  assumes "agree d s"
  shows "\<exists>h. db (ensureInitialized s) = Some h \<and> handleContacts h = contacts d
            \<and> isInitialized (ensureInitialized s)"
proof (cases "isInitialized s")
  case True
  then show ?thesis using assms
    by (auto simp: agree_def ensureInitialized_def split: option.splits)
next
  case False
  with assms have e: "contacts d = []"
    "getItemThrows (sqLocalStorage s) \<or> items (sqLocalStorage s) sqSlot = None"
    by (auto simp: agree_def)
  let ?s2 = "createTables (s\<lparr>db := Some \<lparr>handleContacts = [], transactions = [], isOpen = True\<rparr>\<rparr>)"
  have s2: "db ?s2 = Some \<lparr>handleContacts = [], transactions = [], isOpen = True\<rparr>"
    "sqLocalStorage ?s2 = sqLocalStorage s"
    by (simp_all add: createTables_def)
  have l: "db (sqLoadFromStorage ?s2) = Some \<lparr>handleContacts = [], transactions = [], isOpen = True\<rparr>"
    using e(2) s2 by (auto simp add: sqLoadFromStorage_def getItem_def bindE_def)
  show ?thesis using False e(1) l
    by (simp add: ensureInitialized_def initialize_def Let_def scheduleBackup_def)
qed

lemma agree_after:
  "isInitialized s \<Longrightarrow> contacts d' = m
     \<Longrightarrow> agree d' (sqLog msg (sqSaveToStorage (setContacts s h m)))"
  by (simp add: agree_def)

lemma agree_same:
  "isInitialized s \<Longrightarrow> db s = Some h \<Longrightarrow> handleContacts h = contacts d \<Longrightarrow> agree d s"
  by (simp add: agree_def)

lemma step_agree:
  assumes "agree d s"
  shows "fst (sqStep s x) = fst (step d x) \<and> agree (snd (step d x)) (snd (sqStep s x))"
proof -
  from ensureInitialized_agree[OF assms] obtain h where
    h: "db (ensureInitialized s) = Some h" "handleContacts h = contacts d"
      "isInitialized (ensureInitialized s)"
    by auto
  have same: "agree d (ensureInitialized s)" using h by (simp add: agree_same)
  show ?thesis
  proof (cases x)
    case (Create t r n cd)
    then show ?thesis using h
      by (simp add: sqCreateContact_def createContact_def Let_def outcomeOf_def agree_after)
  next
    case (Get i)
    then show ?thesis using h same
      by (simp add: sqGetContact_def getContact_def Let_def outcomeOf_def)
  next
    case GetAll
    then show ?thesis using h same
      by (simp add: sqGetAllContacts_def getAllContacts_def Let_def outcomeOf_def)
  next
    case (Update i cd n)
    then show ?thesis using h same
      by (simp add: sqUpdateContact_def updateContact_def Let_def outcomeOf_def agree_after)
  next
    case (Delete i)
    then show ?thesis using h
      by (simp add: sqDeleteContact_def deleteContact_def Let_def outcomeOf_def agree_after
          agree_def)
  next
    case (Search f)
    then show ?thesis using h same
      by (simp add: sqSearchContacts_def searchContacts_def Let_def cong: option.case_cong if_cong)
  next
    case (ToggleFavorite i n)
    then show ?thesis using h same
      by (simp add: sqToggleFavorite_def toggleFavorite_def Let_def outcomeOf_def agree_after)
  next
    case GetStats
    then show ?thesis using h same
      by (simp add: sqGetStats_def getStats_def Let_def cong: option.case_cong if_cong)
  next
    case Export
    then show ?thesis using h same
      by (simp add: sqExportContacts_def exportContacts_def Let_def outcomeOf_def)
  next
    case (Import jsonData)
    show ?thesis
    proof (cases "bindE (JSON_parse jsonData) iterate")
      case (Inl e)
      then show ?thesis using Import h
        by (simp add: sqImportContacts_def importContacts_def Let_def outcomeOf_def
            sqImportFailed_def importFailed_def agree_def)
    next
      case (Inr records)
      obtain m r where l: "importLoop (contacts d) 0 records = (m, r)"
        by (cases "importLoop (contacts d) 0 records")
      show ?thesis using Import h Inr l
        by (cases r)
          (simp_all add: sqImportContacts_def importContacts_def Let_def outcomeOf_def
            sqImportFailed_def importFailed_def agree_after agree_def)
    qed
  next
    case ClearAll
    then show ?thesis using h
      by (simp add: sqClearAll_def clearAll_def Let_def outcomeOf_def agree_after)
  qed
qed

lemma run_agree:
  "agree d s \<Longrightarrow> fst (sqRun s ops) = fst (run d ops) \<and> agree (snd (run d ops)) (snd (sqRun s ops))"
proof (induction ops arbitrary: d s)
  case Nil
  then show ?case by simp
next
  case (Cons x ops)
  obtain r d1 where sd: "step d x = (r, d1)" by (cases "step d x")
  obtain r' s1 where ss: "sqStep s x = (r', s1)" by (cases "sqStep s x")
  from step_agree[OF Cons.prems, of x] sd ss have a: "r' = r" "agree d1 s1" by auto
  from Cons.IH[OF a(2)] show ?case using sd ss a(1) by (auto split: prod.splits)
qed

lemma agree_contacts: "agree d s \<Longrightarrow> sqContacts s = contacts d"
  by (auto simp: agree_def sqContacts_def split: option.splits if_splits)


subsection \<open>What an import stores\<close>

lemma importLoop_snoc:
  "importLoop m n (xs @ [x]) =
     (case importLoop m n xs of
        (m', Inl e) \<Rightarrow> (m', Inl e)
      | (m', Inr k) \<Rightarrow> importLoop m' k [x])"
proof (induction xs arbitrary: m n)
  case Nil
  show ?case by simp
next
  case (Cons c xs)
  show ?case
  proof (cases "getProp c ''id''")
    case (Inl e)
    then show ?thesis by simp
  next
    case (Inr i)
    then show ?thesis using Cons.IH by simp
  qed
qed

lemma accepted_append:
  "i < length xs \<Longrightarrow> accepted m (xs @ ys) i = accepted m xs i"
  by (simp add: accepted_def nth_append list_all_iff)

lemma storedBy_snoc:
  "storedBy m (xs @ [x]) =
     storedBy m xs @ (if accepted m (xs @ [x]) (length xs) then [(propOf x ''id'', x)] else [])"
proof -
  have f: "filter (accepted m (xs @ [x])) [0..<length xs] = filter (accepted m xs) [0..<length xs]"
    by (rule filter_cong[OF refl]) (simp add: accepted_append)
  have g: "map (\<lambda>i. (propOf ((xs @ [x]) ! i) ''id'', (xs @ [x]) ! i)) (filter (accepted m xs) [0..<length xs])
      = map (\<lambda>i. (propOf (xs ! i) ''id'', xs ! i)) (filter (accepted m xs) [0..<length xs])"
    by (rule map_cong[OF refl]) (simp add: nth_append)
  show ?thesis
    by (simp add: storedBy_def f g)
qed

lemma mapHas_storedBy:
  "mapHas (storedBy m xs) k
     \<longleftrightarrow> (\<exists>i < length xs. accepted m xs i \<and> sameValueZero (propOf (xs ! i) ''id'') k)"
  by (auto simp: mapHas_iff storedBy_def)

lemma accepted_last:
  assumes "truthy k" and "\<not> mapHas m k" and "k = propOf x ''id''"
  shows "mapHas (storedBy m xs) k
     \<longleftrightarrow> \<not> list_all (\<lambda>j. \<not> sameValueZero (propOf (xs ! j) ''id'') k) [0..<length xs]"
proof
  assume "mapHas (storedBy m xs) k"
  then show "\<not> list_all (\<lambda>j. \<not> sameValueZero (propOf (xs ! j) ''id'') k) [0..<length xs]"
    by (auto simp: mapHas_storedBy list_all_iff)
next
  assume "\<not> list_all (\<lambda>j. \<not> sameValueZero (propOf (xs ! j) ''id'') k) [0..<length xs]"
  then have ex: "\<exists>j. j < length xs \<and> sameValueZero (propOf (xs ! j) ''id'') k"
    by (auto simp: list_all_iff)
  let ?P = "\<lambda>j. j < length xs \<and> sameValueZero (propOf (xs ! j) ''id'') k"
  from ex have "\<exists>j. ?P j \<and> (\<forall>i<j. \<not> ?P i)"
    by (rule exists_least_iff[THEN iffD1])
  then obtain j0 where j0: "j0 < length xs" "sameValueZero (propOf (xs ! j0) ''id'') k"
    and least: "\<forall>i<j0. \<not> ?P i"
    by blast
  have eq: "propOf (xs ! j0) ''id'' = k" using j0(2) by (rule sameValueZero_eq)
  have early: "\<not> sameValueZero (propOf (xs ! i) ''id'') k" if "i < j0" for i
    using that least j0(1) by simp
  have "list_all (\<lambda>j. \<not> sameValueZero (propOf (xs ! j) ''id'') k) [0..<j0]"
    using early by (simp add: list_all_iff)
  then have "accepted m xs j0"
    using assms(1,2) by (simp add: accepted_def eq)
  then show "mapHas (storedBy m xs) k"
    using j0 by (auto simp: mapHas_storedBy)
qed

lemma importLoop_exact:
  assumes "list_all (\<lambda>c. c \<noteq> JNull \<and> c \<noteq> JUndefined) recs"
  shows "importLoop m n recs = (m @ storedBy m recs, Inr (n + length (storedBy m recs)))"
  using assms
proof (induction recs rule: rev_induct)
  case Nil
  show ?case by (simp add: storedBy_def)
next
  case (snoc x xs)
  let ?k = "propOf x ''id''"
  have g: "getProp x ''id'' = Inr ?k" using snoc.prems by (simp add: getProp_def)
  have IH: "importLoop m n xs = (m @ storedBy m xs, Inr (n + length (storedBy m xs)))"
    using snoc by simp
  have acc: "accepted m (xs @ [x]) (length xs)
      \<longleftrightarrow> truthy ?k \<and> \<not> mapHas (m @ storedBy m xs) ?k"
  proof (cases "truthy ?k \<and> \<not> mapHas m ?k")
    case True
    have "list_all (\<lambda>j. \<not> sameValueZero (propOf ((xs @ [x]) ! j) ''id'') ?k) [0..<length xs]
        = list_all (\<lambda>j. \<not> sameValueZero (propOf (xs ! j) ''id'') ?k) [0..<length xs]"
      by (simp add: list_all_iff nth_append)
    then show ?thesis
      using True accepted_last[of ?k m x xs] by (simp add: accepted_def mapHas_append)
  next
    case False
    then show ?thesis by (auto simp: accepted_def mapHas_append)
  qed
  show ?case
    using g IH acc by (simp add: importLoop_snoc storedBy_snoc mapSet_absent)
qed

lemma importLoop_chars:
  "importLoop m n (map (\<lambda>c. JStr [c]) s) = (m, Inr n)"
  by (induction s) (simp_all add: getProp_def)


lemma storedBy_mixed_empty:
  "storedBy [] mixedRecords = [(JStr ''a1'', backdatedRecord), (JNum 5, numberIdRecord)]"
  by code_simp

lemma storedBy_mixed_present:
  "storedBy [(JStr ''a1'', backdatedRecord)] mixedRecords = [(JNum 5, numberIdRecord)]"
  by code_simp

lemma storedBy_single_new:
  "storedBy [(JStr ''rsabc'', c)] [backdatedRecord] = [(JStr ''a1'', backdatedRecord)]"
  by (simp add: storedBy_def accepted_def backdatedRecord_def own_Cons)

lemma storedBy_single_present:
  "storedBy [(JStr ''a1'', c)] [backdatedRecord] = []"
  by (simp add: storedBy_def accepted_def backdatedRecord_def own_Cons)

lemma mixedRecords_not_null:
  "list_all (\<lambda>c. c \<noteq> JNull \<and> c \<noteq> JUndefined) mixedRecords"
  by (simp add: mixedRecords_def backdatedRecord_def sameIdRecord_def numberIdRecord_def
      recordWithoutId_def)


subsection \<open>The generated id\<close>








section \<open>Creating a contact\<close>



section \<open>Updating a contact\<close>

text \<open>
  Claim C3, as the code has it. For an id whose stored contact is an object,
  \<open>updateContact\<close> returns and stores a contact in which every field that the partial
  data does not name keeps its previous value, apart from \<^verbatim>\<open>updatedAt\<close>, which becomes
  the time of the update; when the partial data gives no (truthy) \<^verbatim>\<open>tags\<close> the
  previous tags are kept; with the empty partial every field other than
  \<^verbatim>\<open>updatedAt\<close> is unchanged. The new \<^verbatim>\<open>updatedAt\<close> is later than the previous one
  exactly when the clock reading is: the store does nothing to make it strictly later.
\<close>

theorem updateContact_retains_absent_fields:
  assumes present: "mapGet (contacts d) (JStr id') = JObj ps"
    and res: "updateContact d id' contactData now = (updated, d')"
  shows "mapGet (contacts d') (JStr id') = updated
    \<and> propOf updated ''updatedAt'' = JDate now
    \<and> (\<forall>k. k \<notin> fst ` set contactData \<and> k \<noteq> ''updatedAt'' \<and> k \<noteq> ''tags''
          \<longrightarrow> propOf updated k = own ps k)
    \<and> (\<not> truthy (own contactData ''tags'') \<longrightarrow> propOf updated ''tags'' = own ps ''tags'')
    \<and> (contactData = [] \<longrightarrow> (\<forall>k. k \<noteq> ''updatedAt'' \<longrightarrow> propOf updated k = own ps k))
    \<and> (\<forall>t. own ps ''updatedAt'' = JDate t
          \<longrightarrow> jsLess (own ps ''updatedAt'') (propOf updated ''updatedAt'') = (t < now))"
proof -
  let ?tags = "if truthy (own contactData ''tags'') then own contactData ''tags'' else own ps ''tags''"
  let ?qs = "ps @ contactData @ [(''updatedAt'', JDate now), (''tags'', ?tags)]"
  have u: "updated = JObj (assign [] ?qs)"
    and d: "d' = saveToStorage (d\<lparr>contacts := mapSet (contacts d) (JStr id') updated\<rparr>)"
    using res present by (auto simp: updateContact_def Let_def)
  have 1: "mapGet (contacts d') (JStr id') = updated"
    by (simp add: d mapGet_mapSet_Str)
  have 2: "propOf updated ''updatedAt'' = JDate now"
    by (simp add: u own_simps)
  have 3: "propOf updated k = own ps k"
    if "k \<notin> fst ` set contactData" "k \<noteq> ''updatedAt''" "k \<noteq> ''tags''" for k
    using that by (simp add: u own_simps)
  have 4: "propOf updated ''tags'' = own ps ''tags''" if "\<not> truthy (own contactData ''tags'')"
    using that by (simp add: u own_simps)
  have 5: "propOf updated k = own ps k" if "contactData = []" "k \<noteq> ''updatedAt''" for k
    using that 3[of k] 4 by (cases "k = ''tags''") auto
  show ?thesis using 1 2 3 4 5 by simp
qed

theorem updateContact_retains_absent_fields_witness:
  "mapGet (contacts storeWithJohn) (JStr johnId) \<noteq> JUndefined
   \<and> propOf (fst (updateContact storeWithJohn johnId [(''phone'', JStr ''555-0199'')] 2000)) ''updatedAt''
       = JDate 2000
   \<and> propOf (fst (updateContact storeWithJohn johnId [(''phone'', JStr ''555-0199'')] 2000)) ''tags''
       = JArr [JStr ''work'']
   \<and> propOf (fst (updateContact storeWithJohn johnId [(''phone'', JStr ''555-0199'')] 2000)) ''firstName''
       = JStr ''John''"
proof -
  let ?ps = "[(''id'', JStr ''rsabc''), (''firstName'', JStr ''John''), (''lastName'', JStr ''Doe''),
     (''email'', JStr ''john@example.org''), (''phone'', JStr ''555-0100''),
     (''tags'', JArr [JStr ''work'']), (''createdAt'', JDate 1001), (''updatedAt'', JDate 1001),
     (''isFavorite'', JBool False)]"
  have present: "mapGet (contacts storeWithJohn) (JStr johnId) = JObj ?ps"
    by (simp add: storeWithJohn_contacts johnId_eq)
  have res: "updateContact storeWithJohn johnId [(''phone'', JStr ''555-0199'')] 2000 =
      (fst (updateContact storeWithJohn johnId [(''phone'', JStr ''555-0199'')] 2000),
       snd (updateContact storeWithJohn johnId [(''phone'', JStr ''555-0199'')] 2000))"
    by simp
  from updateContact_retains_absent_fields[OF present res] present
  show ?thesis by (simp add: own_Cons)
qed

text \<open>
  The claim as stated fails: a contact created at clock reading 1001 and updated with the
  empty partial while the clock still reads 1001 keeps the same \<^verbatim>\<open>updatedAt\<close>.
\<close>

theorem updatedAt_not_strictly_increasing:
  "propOf (mapGet (contacts storeWithJohn) (JStr johnId)) ''updatedAt'' = JDate 1001
   \<and> propOf (fst (updateContact storeWithJohn johnId [] 1001)) ''updatedAt'' = JDate 1001
   \<and> \<not> jsLess (propOf (mapGet (contacts storeWithJohn) (JStr johnId)) ''updatedAt'')
              (propOf (fst (updateContact storeWithJohn johnId [] 1001)) ''updatedAt'')"
  by (simp add: storeWithJohn_contacts johnId_eq updateContact_def Let_def own_simps)

section \<open>Identifiers\<close>




section \<open>Timestamps\<close>



section \<open>Importing\<close>

text \<open>
  Claim C2, as the code has it. \<open>importContacts\<close> throws the format error, leaving the
  collection as it was, when the text does not parse or parses to a value that cannot be
  iterated; a text that parses to a string is iterated character by character and stores
  nothing. For a text that parses to an array without \<^verbatim>\<open>null\<close> elements it does
  not throw, and the outcome is this one: each record whose \<^verbatim>\<open>id\<close> is truthy and is
  not yet a key, of the collection or of an earlier record of the array, is stored as it
  is under its \<^verbatim>\<open>id\<close>, behind the entries already there and in the order of the
  array; every other record is skipped; the entries already there stay as they are; the
  count returned is the number of entries stored. When the records carry non-empty string
  ids that differ from each other, the count is \<open>N - M\<close>.
\<close>

theorem importContacts_counts_inserted_records:
  "(\<forall>e. JSON_parse jsonData = Inl e \<longrightarrow>
       fst (importContacts d jsonData) = Inl (Error ''Invalid import data format'')
       \<and> contacts (snd (importContacts d jsonData)) = contacts d)
   \<and> (\<forall>v e. JSON_parse jsonData = Inr v \<and> iterate v = Inl e \<longrightarrow>
       fst (importContacts d jsonData) = Inl (Error ''Invalid import data format'')
       \<and> contacts (snd (importContacts d jsonData)) = contacts d)
   \<and> (\<forall>s. JSON_parse jsonData = Inr (JStr s) \<longrightarrow>
       fst (importContacts d jsonData) = Inr 0
       \<and> contacts (snd (importContacts d jsonData)) = contacts d)
   \<and> (\<forall>records. JSON_parse jsonData = Inr (JArr records)
         \<and> list_all (\<lambda>c. c \<noteq> JNull \<and> c \<noteq> JUndefined) records \<longrightarrow>
       contacts (snd (importContacts d jsonData)) = contacts d @ storedBy (contacts d) records
       \<and> fst (importContacts d jsonData) = Inr (length (storedBy (contacts d) records))
       \<and> (list_all (\<lambda>c. isStr (propOf c ''id'') \<and> truthy (propOf c ''id'')) records
            \<and> distinct (map (\<lambda>c. propOf c ''id'') records) \<longrightarrow>
          fst (importContacts d jsonData)
            = Inr (length records
                   - length (filter (\<lambda>c. mapHas (contacts d) (propOf c ''id'')) records))))"
proof (intro conjI allI impI)
  fix e assume "JSON_parse jsonData = Inl e"
  then show "fst (importContacts d jsonData) = Inl (Error ''Invalid import data format'')"
    "contacts (snd (importContacts d jsonData)) = contacts d"
    by (simp_all add: importContacts_def importFailed_def bindE_def)
next
  fix v e assume "JSON_parse jsonData = Inr v \<and> iterate v = Inl e"
  then show "fst (importContacts d jsonData) = Inl (Error ''Invalid import data format'')"
    "contacts (snd (importContacts d jsonData)) = contacts d"
    by (simp_all add: importContacts_def importFailed_def bindE_def)
next
  fix s assume "JSON_parse jsonData = Inr (JStr s)"
  then show "fst (importContacts d jsonData) = Inr 0"
    "contacts (snd (importContacts d jsonData)) = contacts d"
    by (simp_all add: importContacts_def bindE_def importLoop_chars)
next
  fix records
  assume a: "JSON_parse jsonData = Inr (JArr records)
         \<and> list_all (\<lambda>c. c \<noteq> JNull \<and> c \<noteq> JUndefined) records"
  then have "importLoop (contacts d) 0 records
      = (contacts d @ storedBy (contacts d) records, Inr (0 + length (storedBy (contacts d) records)))"
    by (intro importLoop_exact) simp
  then show "contacts (snd (importContacts d jsonData)) = contacts d @ storedBy (contacts d) records"
    "fst (importContacts d jsonData) = Inr (length (storedBy (contacts d) records))"
    using a by (simp_all add: importContacts_def bindE_def)
next
  fix records
  assume a: "JSON_parse jsonData = Inr (JArr records)
         \<and> list_all (\<lambda>c. c \<noteq> JNull \<and> c \<noteq> JUndefined) records"
    and b: "list_all (\<lambda>c. isStr (propOf c ''id'') \<and> truthy (propOf c ''id'')) records
            \<and> distinct (map (\<lambda>c. propOf c ''id'') records)"
  have cnt: "snd (importLoop (contacts d) 0 records)
     = Inr (length (filter (\<lambda>c. \<not> mapHas (contacts d) (propOf c ''id'')) records))"
    using importLoop_count[of records "contacts d" 0] b by simp
  have len: "length (filter (\<lambda>c. \<not> mapHas (contacts d) (propOf c ''id'')) records)
      = length records - length (filter (\<lambda>c. mapHas (contacts d) (propOf c ''id'')) records)"
    using sum_length_filter_compl[of "\<lambda>c. mapHas (contacts d) (propOf c ''id'')" records] by simp
  show "fst (importContacts d jsonData)
            = Inr (length records
                   - length (filter (\<lambda>c. mapHas (contacts d) (propOf c ''id'')) records))"
    using a cnt len
    by (cases "importLoop (contacts d) 0 records") (auto simp: importContacts_def bindE_def)
qed

theorem importContacts_counts_inserted_records_witness:
  "JSON_parse (JsonText (JArr mixedRecords)) = Inr (JArr mixedRecords)
   \<and> list_all (\<lambda>c. c \<noteq> JNull \<and> c \<noteq> JUndefined) mixedRecords
   \<and> contacts (snd (importContacts emptyStore (JsonText (JArr mixedRecords))))
       = [(JStr ''a1'', backdatedRecord), (JNum 5, numberIdRecord)]
   \<and> fst (importContacts emptyStore (JsonText (JArr mixedRecords))) = Inr 2
   \<and> contacts (snd (importContacts storeWithImport (JsonText (JArr mixedRecords))))
       = [(JStr ''a1'', backdatedRecord), (JNum 5, numberIdRecord)]
   \<and> fst (importContacts storeWithImport (JsonText (JArr mixedRecords))) = Inr 1
   \<and> JSON_parse (JsonText (JArr [backdatedRecord])) = Inr (JArr [backdatedRecord])
   \<and> list_all (\<lambda>c. c \<noteq> JNull \<and> c \<noteq> JUndefined) [backdatedRecord]
   \<and> list_all (\<lambda>c. isStr (propOf c ''id'') \<and> truthy (propOf c ''id'')) [backdatedRecord]
   \<and> distinct (map (\<lambda>c. propOf c ''id'') [backdatedRecord])
   \<and> fst (importContacts storeWithJohn (JsonText (JArr [backdatedRecord]))) = Inr 1
   \<and> fst (importContacts storeWithImport (JsonText (JArr [backdatedRecord]))) = Inr 0
   \<and> JSON_parse Malformed = Inl SyntaxError
   \<and> fst (importContacts storeWithJohn Malformed) = Inl (Error ''Invalid import data format'')
   \<and> JSON_parse (JsonText (JObj [])) = Inr (JObj []) \<and> iterate (JObj []) = Inl TypeError
   \<and> fst (importContacts storeWithJohn (JsonText (JObj []))) = Inl (Error ''Invalid import data format'')
   \<and> JSON_parse (JsonText (JStr ''ab'')) = Inr (JStr ''ab'')
   \<and> fst (importContacts storeWithJohn (JsonText (JStr ''ab''))) = Inr 0"
proof -
  have p: "JSON_parse (JsonText (JArr [backdatedRecord])) = Inr (JArr [backdatedRecord])"
    and nn: "list_all (\<lambda>c. c \<noteq> JNull \<and> c \<noteq> JUndefined) [backdatedRecord]"
    and ids: "list_all (\<lambda>c. isStr (propOf c ''id'') \<and> truthy (propOf c ''id'')) [backdatedRecord]"
      "distinct (map (\<lambda>c. propOf c ''id'') [backdatedRecord])"
    and i: "propOf backdatedRecord ''id'' = JStr ''a1''"
    by (simp_all add: backdatedRecord_def own_Cons)
  have m: "JSON_parse Malformed = Inl SyntaxError"
    and o: "JSON_parse (JsonText (JObj [])) = Inr (JObj [])" "iterate (JObj []) = Inl TypeError"
    and q: "JSON_parse (JsonText (JArr mixedRecords)) = Inr (JArr mixedRecords)"
    and t: "JSON_parse (JsonText (JStr ''ab'')) = Inr (JStr ''ab'')"
    by simp_all
  from importContacts_counts_inserted_records[of "JsonText (JArr mixedRecords)" emptyStore]
    importContacts_counts_inserted_records[of "JsonText (JArr mixedRecords)" storeWithImport]
    importContacts_counts_inserted_records[of "JsonText (JArr [backdatedRecord])" storeWithJohn]
    importContacts_counts_inserted_records[of "JsonText (JArr [backdatedRecord])" storeWithImport]
    importContacts_counts_inserted_records[of Malformed storeWithJohn]
    importContacts_counts_inserted_records[of "JsonText (JObj [])" storeWithJohn]
    importContacts_counts_inserted_records[of "JsonText (JStr ''ab'')" storeWithJohn]
    p nn ids m o q t mixedRecords_not_null
  show ?thesis
    by (simp add: i storeWithJohn_contacts storeWithImport_contacts storedBy_mixed_empty
        storedBy_mixed_present storedBy_single_new storedBy_single_present)
qed

text \<open>
  The claim as stated fails: a record without \<^verbatim>\<open>id\<close> is one of the \<open>N\<close> records
  and not one of the \<open>M\<close> whose id is present, yet it is not counted; and an array
  holding \<^verbatim>\<open>null\<close> parses as an array, yet the import throws, after the records
  before the \<^verbatim>\<open>null\<close> have been stored.
\<close>

theorem import_count_and_failure_differ:
  "fst (importContacts emptyStore (JsonText (JArr [JObj [(''firstName'', JStr ''Ann'')]]))) = Inr 0
   \<and> length [JObj [(''firstName'', JStr ''Ann'')]]
       - length (filter (\<lambda>c. mapHas (contacts emptyStore) (propOf c ''id''))
                   [JObj [(''firstName'', JStr ''Ann'')]]) = 1
   \<and> fst (importContacts emptyStore (JsonText (JArr [JObj [(''id'', JStr ''a1'')], JNull])))
       = Inl (Error ''Invalid import data format'')
   \<and> contacts (snd (importContacts emptyStore (JsonText (JArr [JObj [(''id'', JStr ''a1'')], JNull]))))
       = [(JStr ''a1'', JObj [(''id'', JStr ''a1'')])]"
  by (simp add: importContacts_def bindE_def getProp_def own_Cons importFailed_def)

section \<open>Export, clear, import\<close>

text \<open>
  Claim C5, as the code has it. For a collection in which every contact is stored under
  its own id, a non-empty string, \<open>exportContacts\<close> gives a text that parses to the
  array of what JSON keeps of the contacts, in the order of \<open>getAllContacts\<close>; clearing
  and importing that text stores, under the same ids and in the same order, what JSON
  keeps of each contact (a \<^verbatim>\<open>Date\<close> comes back as its ISO string, a property holding
  \<^verbatim>\<open>undefined\<close> is gone), and returns their number. A collection whose contacts are
  JSON values already is restored exactly. The layout of the text is not represented.
\<close>

theorem export_clear_import_restores_json_images:
  assumes inv: "idInv (contacts d)" and keys: "list_all (\<lambda>(k, c). isStr k \<and> truthy k) (contacts d)"
  shows "JSON_parse (exportContacts d) = Inr (JArr (map toJSON (getAllContacts d)))
     \<and> fst (importContacts (clearAll d) (exportContacts d)) = Inr (length (contacts d))
     \<and> contacts (snd (importContacts (clearAll d) (exportContacts d)))
         = map (\<lambda>(k, c). (k, toJSON c)) (contacts d)
     \<and> (list_all (\<lambda>(k, c). toJSON c = c) (contacts d) \<longrightarrow>
          contacts (snd (importContacts (clearAll d) (exportContacts d))) = contacts d)"
proof -
  have obj: "list_all (\<lambda>v. v \<noteq> JUndefined) (mapValues (contacts d))"
    using inv keys by (fastforce simp: idInv_def list_all_iff mapValues_def)
  have ex: "exportContacts d = JsonText (JArr (map toJSON (mapValues (contacts d))))"
    by (simp add: exportContacts_def JSON_stringify_def toJSONList_map[OF obj])
  have mv: "map toJSON (mapValues (contacts d)) = map (\<lambda>(k, c). toJSON c) (contacts d)"
    by (simp add: mapValues_def case_prod_unfold)
  have loop: "importLoop [] 0 (map (\<lambda>(k, c). toJSON c) (contacts d))
     = (map (\<lambda>(k, c). (k, toJSON c)) (contacts d), Inr (length (contacts d)))"
    using importLoop_images[OF inv keys, of "[]" 0] by simp
  have r: "importContacts (clearAll d) (exportContacts d)
     = (Inr (length (contacts d)),
        saveToStorage ((clearAll d)\<lparr>contacts := map (\<lambda>(k, c). (k, toJSON c)) (contacts d)\<rparr>))"
    by (simp add: importContacts_def ex bindE_def mv clearAll_def loop)
  have same: "map (\<lambda>(k, c). (k, toJSON c)) (contacts d) = contacts d"
    if "list_all (\<lambda>(k, c). toJSON c = c) (contacts d)"
    using that by (induction "contacts d") (auto simp: list_all_iff intro!: map_idI)
  have 1: "JSON_parse (exportContacts d) = Inr (JArr (map toJSON (getAllContacts d)))"
    by (simp add: ex getAllContacts_def)
  have 2: "fst (importContacts (clearAll d) (exportContacts d)) = Inr (length (contacts d))"
    and 3: "contacts (snd (importContacts (clearAll d) (exportContacts d)))
         = map (\<lambda>(k, c). (k, toJSON c)) (contacts d)"
    by (simp_all add: r)
  show ?thesis using 1 2 3 same by simp
qed

theorem export_clear_import_restores_json_images_witness:
  "idInv (contacts storeWithImport)
   \<and> list_all (\<lambda>(k, c). isStr k \<and> truthy k) (contacts storeWithImport)
   \<and> list_all (\<lambda>(k, c). toJSON c = c) (contacts storeWithImport)
   \<and> fst (importContacts (clearAll storeWithImport) (exportContacts storeWithImport)) = Inr 1
   \<and> contacts (snd (importContacts (clearAll storeWithImport) (exportContacts storeWithImport)))
       = contacts storeWithImport"
proof -
  have keys: "list_all (\<lambda>(k, c). isStr k \<and> truthy k) (contacts storeWithImport)"
    and stable: "list_all (\<lambda>(k, c). toJSON c = c) (contacts storeWithImport)"
    by (simp_all add: storeWithImport_contacts toJSON_backdatedRecord)
  from export_clear_import_restores_json_images[OF idInv_storeWithImport keys]
    idInv_storeWithImport keys stable
  show ?thesis by (simp add: storeWithImport_contacts)
qed

text \<open>
  The claim as stated fails: a contact made by \<open>createContact\<close> holds \<^verbatim>\<open>Date\<close>
  objects, and after export, clear and import the collection holds a different record,
  with strings in their place.
\<close>

theorem export_import_turns_dates_into_strings:
  "propOf (getContact storeWithJohn johnId) ''createdAt'' = JDate 1001
   \<and> propOf (getContact (snd (importContacts (clearAll storeWithJohn) (exportContacts storeWithJohn)))
        johnId) ''createdAt'' = JStr ''1970-01-01T00:00:01.001Z''
   \<and> set (mapValues (contacts (snd (importContacts (clearAll storeWithJohn)
                                        (exportContacts storeWithJohn)))))
       \<noteq> set (mapValues (contacts storeWithJohn))"
  by (simp add: getContact_def storeWithJohn_contacts johnId_eq own_Cons importContacts_def
      exportContacts_def JSON_stringify_def clearAll_def bindE_def mapValues_def getProp_def
      toISOString_1001)

section \<open>Statistics\<close>

text \<open>
  Claim C8, as the code has it. For every collection in which each contact has a
  \<^verbatim>\<open>tags\<close> array of strings, none of them the name of a member of
  \<^verbatim>\<open>Object.prototype\<close>, \<open>getStats\<close> returns: \<open>total\<close>, the number of contacts;
  \<open>favorites\<close>, \<open>withEmail\<close> and \<open>withPhone\<close>, the numbers of contacts whose
  \<^verbatim>\<open>isFavorite\<close>, \<^verbatim>\<open>email\<close> and \<^verbatim>\<open>phone\<close> are truthy (for a string: not
  empty); and \<open>byTag\<close>, which holds for each tag the number of times it occurs in the
  tag lists of all contacts, and nothing for a tag that does not occur.
\<close>

theorem getStats_counts:
  assumes "list_all hasPlainTags (getAllContacts d)"
  shows "\<exists>st. getStats d = Inr st
     \<and> total st = length (getAllContacts d)
     \<and> favorites st = length (filter (\<lambda>c. truthy (propOf c ''isFavorite'')) (getAllContacts d))
     \<and> withEmail st = length (filter (\<lambda>c. truthy (propOf c ''email'')) (getAllContacts d))
     \<and> withPhone st = length (filter (\<lambda>c. truthy (propOf c ''phone'')) (getAllContacts d))
     \<and> distinct (map fst (byTag st))
     \<and> (\<forall>t. own (byTag st) t =
           (if count_list (concat (map (\<lambda>c. elemsOf (propOf c ''tags'')) (getAllContacts d))) (JStr t) = 0
            then JUndefined
            else JNum (int (count_list
                   (concat (map (\<lambda>c. elemsOf (propOf c ''tags'')) (getAllContacts d))) (JStr t)))))"
proof -
  let ?cs = "mapValues (contacts d)"
  have cs: "list_all hasPlainTags ?cs" using assms by (simp add: getAllContacts_def)
  have nn: "list_all (\<lambda>c. c \<noteq> JNull \<and> c \<noteq> JUndefined) ?cs"
    using cs hasPlainTags_nonnull by (auto simp: list_all_iff)
  have t0: "tallies [] (\<lambda>t. 0)" by (simp add: tallies_def)
  from tallies_tagLoop[OF t0 cs] obtain p' where
    p': "tagLoop [] ?cs = Inr p'"
      "tallies p' (\<lambda>t. count_list (concat (map (\<lambda>c. elemsOf (propOf c ''tags'')) ?cs)) (JStr t))"
    by auto
  have d: "distinct (map fst p')" using p'(2) by (simp add: tallies_def)
  show ?thesis
    by (simp add: getStats_def Let_def p'(1) bindE_def filterE_truthyField[OF nn] getAllContacts_def
        tallies_own[OF p'(2)] d)
qed

theorem getStats_counts_witness:
  "list_all hasPlainTags (getAllContacts storeWithJohn)
   \<and> (case getStats storeWithJohn of
         Inl e \<Rightarrow> False
       | Inr st \<Rightarrow> total st = 1 \<and> favorites st = 0 \<and> withEmail st = 1 \<and> withPhone st = 1
                   \<and> own (byTag st) ''work'' = JNum 1 \<and> own (byTag st) ''design'' = JUndefined)"
proof -
  have h: "list_all hasPlainTags (getAllContacts storeWithJohn)"
    by (simp add: getAllContacts_def mapValues_def storeWithJohn_contacts hasPlainTags_def own_Cons
        objectPrototypeNames_def)
  from getStats_counts[OF h] h show ?thesis
    by (auto simp: getAllContacts_def mapValues_def storeWithJohn_contacts own_Cons)
qed

text \<open>
  The claim as stated fails: for a collection holding an imported record without
  \<^verbatim>\<open>tags\<close>, \<open>getStats\<close> throws; and a tag that one contact lists twice is counted
  twice, though one contact carries it.
\<close>

theorem getStats_fails_without_tags:
  "contacts storeWithoutTags = [(JStr ''b2'', recordWithoutTags)]
   \<and> getStats storeWithoutTags = Inl TypeError
   \<and> getStats storeWithRepeatedTag
       = Inr \<lparr>total = 1, favorites = 0, withEmail = 1, withPhone = 1, byTag = [(''vip'', JNum 2)]\<rparr>
   \<and> length (filter (\<lambda>c. JStr ''vip'' \<in> set (elemsOf (propOf c ''tags'')))
               (getAllContacts storeWithRepeatedTag)) = 1"
  by (simp add: storeWithoutTags_contacts storeWithRepeatedTag_contacts getStats_def mapValues_def
      Let_def bindE_def getProp_def recordWithoutTags_def own_Cons bumpTag_def plusOne_def
      objectPrototypeNames_def truthyField_def getAllContacts_def)

text \<open>
  A tag named like an inherited member (left out of the statement above) is not
  counted: its entry in \<open>byTag\<close> becomes a string.
\<close>

theorem getStats_tag_named_like_inherited_member:
  "getStats (snd (createContact emptyStore 1000 ''abc'' 1001 inheritedNameTag))
     = Inr \<lparr>total = 1, favorites = 0, withEmail = 1, withPhone = 1,
            byTag = [(''toString'', JStr ''function toString() { [native code] }1'')]\<rparr>"
  by (simp add: createContact_def Let_def inheritedNameTag_def assign_def own_Cons getStats_def
      mapValues_def bindE_def getProp_def bumpTag_def plusOne_def objectPrototypeNames_def
      truthyField_def nativeText_def)

section \<open>Searching\<close>

text \<open>
  Claim C1, as the code has it. For every collection of contacts (values of the
  \<^verbatim>\<open>Contact\<close> interface) and every filter object, \<open>searchContacts\<close> returns,
  without throwing, the contacts that pass three stages, in the order of
  \<open>getAllContacts\<close> when no sort key is given: (a) when a non-empty search term is given,
  the contacts where the lower-cased term occurs in the lower-cased \<^verbatim>\<open>firstName\<close>,
  \<^verbatim>\<open>lastName\<close>, \<^verbatim>\<open>email\<close> or \<^verbatim>\<open>company\<close>, or occurs in the \<^verbatim>\<open>phone\<close>
  text as it is; (b) when a non-empty tag list is given, the contacts that have at least
  one of its tags; (c) when \<^verbatim>\<open>isFavorite\<close> is given, the contacts whose
  \<^verbatim>\<open>isFavorite\<close> is that value. (d) When a sort key is given the result is a
  rearrangement of those contacts that is ascending (descending for \<^verbatim>\<open>desc\<close>) in the
  key, names compared in lower case, contacts with equal keys staying in their previous
  order. With no filter and no sort key the result is \<open>getAllContacts\<close>. Lower case
  is that of \<^verbatim>\<open>String.prototype.toLowerCase\<close>, on texts whose code units are below
  256; names are compared code unit by code unit.
\<close>

theorem searchContacts_stages:
  assumes "list_all isContact (getAllContacts d)"
  shows "\<exists>results. searchContacts d filters = Inr results
     \<and> mset results = mset (filter (keptBy filters) (getAllContacts d))
     \<and> (sortBy filters = None \<longrightarrow> results = filter (keptBy filters) (getAllContacts d))
     \<and> (\<forall>by. sortBy filters = Some by \<longrightarrow>
           sorted_wrt (inOrder by (sortOrder filters)) results
           \<and> (\<forall>k. filter (\<lambda>c. sortKey by c = k) results
                  = filter (\<lambda>c. sortKey by c = k) (filter (keptBy filters) (getAllContacts d))))
     \<and> (search filters = None \<and> tags filters = None \<and> isFavorite filters = None \<longrightarrow>
           filter (keptBy filters) (getAllContacts d) = getAllContacts d)"
proof -
  let ?cs = "mapValues (contacts d)"
  let ?kept = "filter (keptBy filters) ?cs"
  have cs: "list_all isContact ?cs" using assms by (simp add: getAllContacts_def)
  have s: "searchContacts d filters =
      (case sortBy filters of
         Some by \<Rightarrow> sortResults by (sortOrder filters) ?kept
       | None \<Rightarrow> Inr ?kept)"
    unfolding searchContacts_def by (rule filter_stages[OF cs])
  have kept: "list_all isContact ?kept" using cs by (simp add: list_all_iff)
  have none: "?kept = ?cs"
    if "search filters = None \<and> tags filters = None \<and> isFavorite filters = None"
    using that by (simp add: keptBy_def)
  show ?thesis
  proof (cases "sortBy filters")
    case None
    then show ?thesis using s none by (simp add: getAllContacts_def)
  next
    case (Some b)
    from sortResults_contacts[OF kept, of b "sortOrder filters"] obtain res where
      "sortResults b (sortOrder filters) ?kept = Inr res" "mset res = mset ?kept"
      "sorted_wrt (inOrder b (sortOrder filters)) res"
      "\<forall>k. filter (\<lambda>c. sortKey b c = k) res = filter (\<lambda>c. sortKey b c = k) ?kept"
      by blast
    then show ?thesis using s Some none by (simp add: getAllContacts_def)
  qed
qed

theorem searchContacts_stages_witness:
  "list_all isContact (getAllContacts storeWithTwo)
   \<and> searchContacts storeWithTwo noFilters = Inr (getAllContacts storeWithTwo)
   \<and> (case searchContacts storeWithTwo byFirstName of
         Inl e \<Rightarrow> False
       | Inr results \<Rightarrow> mset results = mset (getAllContacts storeWithTwo)
                        \<and> sorted_wrt (inOrder ByFirstName None) results)"
proof -
  have k: "filter (keptBy byFirstName) (getAllContacts storeWithTwo) = getAllContacts storeWithTwo"
    by (simp add: getAllContacts_def mapValues_def storeWithTwo_contacts keptBy_def byFirstName_def
        own_Cons)
  have sb: "sortBy byFirstName = Some ByFirstName" "sortOrder byFirstName = None"
    by (simp_all add: byFirstName_def)
  have nf: "sortBy noFilters = None" "search noFilters = None \<and> tags noFilters = None
      \<and> isFavorite noFilters = None"
    by (simp_all add: noFilters_def)
  from searchContacts_stages[OF isContact_storeWithTwo, of noFilters] nf
  have a: "searchContacts storeWithTwo noFilters = Inr (getAllContacts storeWithTwo)"
    by metis
  from searchContacts_stages[OF isContact_storeWithTwo, of byFirstName] sb
  obtain results where r: "searchContacts storeWithTwo byFirstName = Inr results"
    "mset results = mset (filter (keptBy byFirstName) (getAllContacts storeWithTwo))"
    "sorted_wrt (inOrder ByFirstName None) results"
    by metis
  show ?thesis using isContact_storeWithTwo a r unfolding k by simp
qed

text \<open>
  The claim as stated fails: the term \<^verbatim>\<open>FLOWERS\<close> occurs, in that case, in the
  phone text \<^verbatim>\<open>1-800-FLOWERS\<close>, but the code looks for the lower-cased term there and
  keeps nothing; and an empty tag list is not a stage that keeps the contacts sharing a
  tag with it (there are none) but no stage at all.
\<close>

theorem search_term_is_lowercased_for_phone:
  "propOf (getContact storeWithTwo ''1jkxyz'') ''phone'' = JStr ''1-800-FLOWERS''
   \<and> sublist ''FLOWERS'' ''1-800-FLOWERS''
   \<and> searchContacts storeWithTwo searchFlowers = Inr []
   \<and> searchContacts storeWithTwo emptyTagList = Inr (getAllContacts storeWithTwo)
   \<and> length (getAllContacts storeWithTwo) = 2"
proof -
  have 1: "propOf (getContact storeWithTwo ''1jkxyz'') ''phone'' = JStr ''1-800-FLOWERS''"
    by (simp add: getContact_def storeWithTwo_contacts own_Cons)
  have 2: "sublist ''FLOWERS'' ''1-800-FLOWERS''"
    by (simp add: sublist_Cons_right)
  have k: "filter (keptBy searchFlowers) (getAllContacts storeWithTwo) = []"
    by code_simp
  have sb: "sortBy searchFlowers = None" by (simp add: searchFlowers_def)
  have 3: "searchContacts storeWithTwo searchFlowers = Inr []"
    using searchContacts_unsorted[OF isContact_storeWithTwo sb] k by simp
  have 4: "searchContacts storeWithTwo emptyTagList = Inr (getAllContacts storeWithTwo)"
    by (simp add: searchContacts_def emptyTagList_def bindE_def getAllContacts_def)
  have 5: "length (getAllContacts storeWithTwo) = 2"
    by (simp add: getAll_storeWithTwo storeWithTwo_contacts)
  show ?thesis using 1 2 3 4 5 by simp
qed

text \<open>
  Lower-casing is not limited to the ASCII letters: a search for the small e with acute
  finds the contact whose first name starts with the capital one; the multiplication sign
  and the sharp s, which have no lower-case form of their own, stay as they are.
\<close>

theorem search_lowercases_accented_letters:
  "toLowerCase (CHR 0xC9 # ''cole'') = CHR 0xE9 # ''cole''
   \<and> toLowerCase [CHR 0xD7, CHR 0xDF, CHR 0xDE, CHR 0xC0, CHR 0x5B, CHR 0x40]
       = [CHR 0xD7, CHR 0xDF, CHR 0xFE, CHR 0xE0, CHR 0x5B, CHR 0x40]
   \<and> length (getAllContacts storeWithEcole) = 1
   \<and> searchContacts storeWithEcole searchAccent = Inr (getAllContacts storeWithEcole)"
  by code_simp

section \<open>Persistence failures\<close>

text \<open>
  Claim C9, as the code has it. When reading the slot fails at construction, or the slot
  is absent, empty, unparsable or holds \<^verbatim>\<open>null\<close>, the store starts from the empty
  collection and no exception leaves the constructor. When writing the slot fails,
  \<open>saveToStorage\<close> catches the exception and logs it: every operation returns what it
  returns when the write succeeds and leaves the same collection in memory, the slot
  keeps its previous content, and no mutating operation throws the storage's exception.
  The second store catches and logs both failures in the same way.
\<close>

theorem storage_failures_are_caught:
  "(getItemThrows ls \<or> items ls dbName = None \<or> items ls dbName = Some EmptyText
      \<or> items ls dbName = Some Malformed \<or> items ls dbName = Some (JsonText JNull)
    \<longrightarrow> contacts (new_ContactDatabase ls) = [])
   \<and> (setItemThrows (localStorage d) \<longrightarrow>
        saveToStorage d = d\<lparr>console := console d @ [''Failed to save contacts to storage:'']\<rparr>
        \<and> fst (step d x) = fst (step (withWritableStorage d) x)
        \<and> contacts (snd (step d x)) = contacts (snd (step (withWritableStorage d) x))
        \<and> localStorage (snd (step d x)) = localStorage d
        \<and> (mutating x \<longrightarrow> fst (step d x) \<noteq> Thrown DOMException))
   \<and> (setItemThrows (sqLocalStorage s) \<longrightarrow>
        sqSaveToStorage s = sqLog ''Failed to save contacts to storage:'' s)
   \<and> (getItemThrows (sqLocalStorage s) \<longrightarrow>
        sqLoadFromStorage s = sqLog ''Failed to load contacts from storage:'' s)"
proof -
  have 1: "setItemThrows (sqLocalStorage s) \<Longrightarrow>
        sqSaveToStorage s = sqLog ''Failed to save contacts to storage:'' s"
    by (simp add: sqSaveToStorage_def setItem_def bindE_def split: option.splits)
  have 2: "getItemThrows (sqLocalStorage s) \<Longrightarrow>
        sqLoadFromStorage s = sqLog ''Failed to load contacts from storage:'' s"
    by (simp add: sqLoadFromStorage_def getItem_def bindE_def)
  show ?thesis
    using load_starts_empty[of ls] saveToStorage_throws[of d]
      step_outcome_independent_of_storage[of d x] step_keeps_storage_when_throwing[of d x]
      mutating_not_DOMException[of x d] 1 2
    by simp
qed

theorem storage_failures_are_caught_witness:
  "getItemThrows (emptyStorage\<lparr>getItemThrows := True\<rparr>)
   \<and> contacts (new_ContactDatabase (emptyStorage\<lparr>getItemThrows := True\<rparr>)) = []
   \<and> setItemThrows (localStorage failingStore)
   \<and> mutating (Create 1000 ''abc'' 1001 johnDoe)
   \<and> fst (step failingStore (Create 1000 ''abc'' 1001 johnDoe))
       = fst (step (withWritableStorage failingStore) (Create 1000 ''abc'' 1001 johnDoe))
   \<and> localStorage (snd (step failingStore (Create 1000 ''abc'' 1001 johnDoe)))
       = localStorage failingStore
   \<and> fst (step failingStore (Create 1000 ''abc'' 1001 johnDoe)) \<noteq> Thrown DOMException"
proof -
  have g: "getItemThrows (emptyStorage\<lparr>getItemThrows := True\<rparr>)" by simp
  have w: "setItemThrows (localStorage failingStore)" by (simp add: failingStore_fields)
  have m: "mutating (Create 1000 ''abc'' 1001 johnDoe)" by simp
  from storage_failures_are_caught[of "emptyStorage\<lparr>getItemThrows := True\<rparr>" failingStore
      "Create 1000 ''abc'' 1001 johnDoe"] g w m
  show ?thesis by blast
qed

text \<open>
  The claim as stated fails: with a storage that refuses the write, \<open>createContact\<close>
  returns the new contact as usual; the failure is logged and nothing reaches the caller.
\<close>

theorem write_failure_is_not_propagated:
  "setItemThrows (localStorage failingStore)
   \<and> fst (step failingStore (Create 1000 ''abc'' 1001 johnDoe))
       = Returned (JObj [(''id'', JStr ''rsabc''), (''firstName'', JStr ''John''),
            (''lastName'', JStr ''Doe''), (''email'', JStr ''john@example.org''),
            (''phone'', JStr ''555-0100''), (''tags'', JArr [JStr ''work'']),
            (''createdAt'', JDate 1001), (''updatedAt'', JDate 1001), (''isFavorite'', JBool False)])
   \<and> console (snd (step failingStore (Create 1000 ''abc'' 1001 johnDoe)))
       = [''Failed to save contacts to storage:'']
   \<and> items (localStorage (snd (step failingStore (Create 1000 ''abc'' 1001 johnDoe)))) dbName = None"
  by (simp add: failingStore_fields createContact_def Let_def saveToStorage_throws
      johnId_eq[unfolded johnId_def] johnDoe_def assign_def own_Cons emptyStorage_def)

section \<open>The plain store and the SQLite-flavoured store\<close>

text \<open>
  Claim C10, equivalence of the two stores.  Take any sequence of create, get, list, update,
  delete, search, toggleFavorite, stats, export, import and clearAll operations, with the
  same clock readings and random digits given to both stores.  Applied to a plain store
  whose collection is empty and to a freshly constructed SQLite-flavoured store whose slot
  is absent (or cannot be read), the sequence gives the same list of results, thrown errors
  included, and the two stores end with the same collection.  The console lines, the
  backup timer and the storage slot names differ; they are not part of what is compared.
\<close>

theorem stores_agree:
  assumes "contacts d0 = []" and "getItemThrows ls \<or> items ls sqSlot = None"
  shows "fst (sqRun (new_SQLiteContactDatabase cfg ls) ops) = fst (run d0 ops)
     \<and> sqContacts (snd (sqRun (new_SQLiteContactDatabase cfg ls) ops)) = contacts (snd (run d0 ops))"
proof -
  have "agree d0 (new_SQLiteContactDatabase cfg ls)"
    using assms by (simp add: agree_def new_SQLiteContactDatabase_def)
  from run_agree[OF this, of ops] show ?thesis
    by (simp add: agree_contacts)
qed

theorem stores_agree_witness:
  "contacts emptyStore = [] \<and> items emptyStorage sqSlot = None
   \<and> fst (sqRun (new_SQLiteContactDatabase noConfig emptyStorage) opsJohn) = fst (run emptyStore opsJohn)
   \<and> sqContacts (snd (sqRun (new_SQLiteContactDatabase noConfig emptyStorage) opsJohn))
       = contacts storeWithJohn"
proof -
  have e: "items emptyStorage sqSlot = None" by (simp add: emptyStorage_def)
  from stores_agree[OF contacts_emptyStore disjI2[OF e], of noConfig opsJohn] e
  show ?thesis by (simp add: run_opsJohn)
qed

end
